theory Spec2Isabelle
  imports Main
begin

section \<open>The node bootstrap script \<open>scripts/init-database.py\<close>\<close>

text \<open>
  A shallow embedding of the script that brings up one node of a replicated database
  cluster. The script talks to three things outside itself: the process environment
  (\<open>FORCE_INIT\<close>, \<open>PGV\<close>), the progress file \<open>/data/init-status.json\<close> and the
  database engine. The environment is a record that is passed in, the progress file is a
  state that every operation takes and returns, and the database engine is an oracle
  (\<open>world\<close>) that says which connection attempts and statements succeed. Everything the
  script does that can be seen from outside (log lines, sleeps, connections, statements,
  writes of the progress file) is collected in a trace of events.
\<close>

subsection \<open>Persisted progress\<close>

text \<open>\<open>class DatabaseStatus(str, Enum)\<close>: the three recorded statuses.\<close>

datatype DatabaseStatus = CREATED | INITED | SUBSCRIBED

text \<open>\<open>class InitStatus(TypedDict)\<close>; the dictionary \<open>dbs_initialized\<close> is a map.\<close>

record InitStatus =
  default_db_initialized :: bool
  dbs_initialized :: "string \<rightharpoonup> DatabaseStatus"

text \<open>
  What is on disk at \<open>INIT_STATUS_FILE\<close>, by what \<open>json.load\<close> does with it:
  \<^item> \<open>Missing\<close>: there is no file;
  \<^item> \<open>Undecodable\<close>: the bytes are not text in the encoding \<open>open\<close> reads with, and
    \<open>json.load\<close> raises \<open>UnicodeDecodeError\<close>;
  \<^item> \<open>Overnested\<close>: the text nests brackets deeper than the interpreter recurses, and
    \<open>json.load\<close> raises \<open>RecursionError\<close>;
  \<^item> \<open>Unparseable\<close>: the text is not JSON and \<open>json.load\<close> raises \<open>JSONDecodeError\<close>
    (an empty or truncated file, for instance);
  \<^item> \<open>Stored s\<close>: the record that \<open>json.dump\<close> wrote.
  The only writer of the file is \<open>json.dump\<close> of an \<open>InitStatus\<close>, so text that parses is
  taken to have that shape.
\<close>

datatype status_file = Missing | Undecodable | Overnested | Unparseable | Stored InitStatus

text \<open>The two environment variables the script reads; \<open>None\<close> is an unset variable.\<close>

record environ =
  FORCE_INIT :: "string option"
  PGV :: "string option"

text \<open>\<open>str.lower()\<close> on the ASCII letters (a \<open>char\<close> is a byte).\<close>

definition char_lower :: "char \<Rightarrow> char" where
  "char_lower c =
     (case map_of (zip ''ABCDEFGHIJKLMNOPQRSTUVWXYZ'' ''abcdefghijklmnopqrstuvwxyz'') c of
        Some l \<Rightarrow> l
      | None \<Rightarrow> c)"

definition lower :: "string \<Rightarrow> string" where
  "lower s = map char_lower s"

text \<open>\<open>os.getenv(name, default)\<close>.\<close>

definition getenv_default :: "string option \<Rightarrow> string \<Rightarrow> string" where
  "getenv_default v d = (case v of None \<Rightarrow> d | Some s \<Rightarrow> s)"

text \<open>\<open>force_update = os.getenv("FORCE_INIT", "false").lower() == "true"\<close>.\<close>

definition force_update :: "environ \<Rightarrow> bool" where
  "force_update env = (lower (getenv_default (FORCE_INIT env) ''false'') = ''true'')"

definition empty_status :: InitStatus where
  "empty_status = \<lparr>default_db_initialized = False, dbs_initialized = Map.empty\<rparr>"

text \<open>
  What the file itself records, whatever the environment says: the status of a database
  and the flag of the primary database. A file that is missing or that \<open>json.load\<close> does
  not load records nothing.
\<close>

definition recorded_status :: "status_file \<Rightarrow> string \<Rightarrow> DatabaseStatus option" where
  "recorded_status f d = (case f of Stored s \<Rightarrow> dbs_initialized s d | _ \<Rightarrow> None)"

definition recorded_default :: "status_file \<Rightarrow> bool" where
  "recorded_default f = (case f of Stored s \<Rightarrow> default_db_initialized s | _ \<Rightarrow> False)"

text \<open>The order absent, created, inited, subscribed of the statuses.\<close>

fun status_rank :: "DatabaseStatus option \<Rightarrow> nat" where
  "status_rank None = 0"
| "status_rank (Some CREATED) = 1"
| "status_rank (Some INITED) = 2"
| "status_rank (Some SUBSCRIBED) = 3"


subsection \<open>Outcomes, events and programs\<close>

text \<open>
  Exceptions the script does not catch. An uncaught exception ends the process with a
  traceback and exit code 1.
\<close>

datatype error =
    ValueError string
  | KeyError string
  | UnboundLocalError string
  | UnicodeDecodeError
  | RecursionError
  | DatabaseError string

text \<open>
  How a piece of the script ends: it returns a value, it calls \<open>sys.exit\<close>, it raises, or
  it never returns (a \<open>while True\<close> loop whose exit never comes).
\<close>

datatype 'a outcome = Return 'a | Exit nat | Raised error | Forever

text \<open>
  What can be observed of a run. \<open>Info\<close> is a line printed by \<open>info\<close> (the arguments joined
  by spaces, without the banner), \<open>Connect dsn autocommit\<close> a connection returned by
  \<open>connect\<close>, \<open>Execute dsn sql\<close> a statement sent by \<open>cursor.execute\<close> on the connection
  opened with \<open>dsn\<close>, \<open>ExecuteParams\<close> the same with bound parameters, and
  \<open>WriteFile old new\<close> the progress file being overwritten: \<open>old\<close> is what was on disk and
  \<open>new\<close> what \<open>json.dump\<close> wrote.
\<close>

datatype event =
    Info string
  | Sleep nat
  | Connect string bool
  | Execute string string
  | ExecuteParams string string "string list"
  | WriteFile status_file status_file

type_synonym 'a prog = "status_file \<Rightarrow> 'a outcome \<times> event list \<times> status_file"

definition outcome_of :: "'a outcome \<times> event list \<times> status_file \<Rightarrow> 'a outcome" where
  "outcome_of r = fst r"

definition events_of :: "'a outcome \<times> event list \<times> status_file \<Rightarrow> event list" where
  "events_of r = fst (snd r)"

definition file_of :: "'a outcome \<times> event list \<times> status_file \<Rightarrow> status_file" where
  "file_of r = snd (snd r)"

definition ret :: "'a \<Rightarrow> 'a prog" where
  "ret a = (\<lambda>f. (Return a, [], f))"

text \<open>Sequencing: what follows runs only when the first part returns.\<close>

definition bnd :: "'a prog \<Rightarrow> ('a \<Rightarrow> 'b prog) \<Rightarrow> 'b prog" where
  "bnd m k = (\<lambda>f.
     case m f of
       (Return a, t, f') \<Rightarrow> (case k a f' of (r, t', f'') \<Rightarrow> (r, t @ t', f''))
     | (Exit n, t, f') \<Rightarrow> (Exit n, t, f')
     | (Raised e, t, f') \<Rightarrow> (Raised e, t, f')
     | (Forever, t, f') \<Rightarrow> (Forever, t, f'))"

definition andthen :: "unit prog \<Rightarrow> 'b prog \<Rightarrow> 'b prog" where
  "andthen m k = bnd m (\<lambda>_. k)"

text \<open>A block of statements, one after the other.\<close>

fun block :: "unit prog list \<Rightarrow> unit prog" where
  "block [] = ret ()"
| "block (p # ps) = andthen p (block ps)"

text \<open>\<open>for x in xs: body(x)\<close>.\<close>

fun for_each :: "('a \<Rightarrow> unit prog) \<Rightarrow> 'a list \<Rightarrow> unit prog" where
  "for_each body [] = ret ()"
| "for_each body (x # xs) = andthen (body x) (for_each body xs)"

definition emit :: "event \<Rightarrow> unit prog" where
  "emit e = (\<lambda>f. (Return (), [e], f))"

definition info :: "string \<Rightarrow> unit prog" where
  "info msg = emit (Info msg)"

definition sleep :: "nat \<Rightarrow> unit prog" where
  "sleep n = emit (Sleep n)"

definition sys_exit :: "nat \<Rightarrow> 'a prog" where
  "sys_exit n = (\<lambda>f. (Exit n, [], f))"

definition raise :: "error \<Rightarrow> 'a prog" where
  "raise e = (\<lambda>f. (Raised e, [], f))"

definition forever :: "'a prog" where
  "forever = (\<lambda>f. (Forever, [], f))"

text \<open>
  The exit code of the process: 0 when \<open>main\<close> returns, the argument of \<open>sys.exit\<close>, 1 for
  an uncaught exception, none for a run that never ends.
\<close>

fun exit_code :: "unit outcome \<Rightarrow> nat option" where
  "exit_code (Return _) = Some 0"
| "exit_code (Exit n) = Some n"
| "exit_code (Raised _) = Some 1"
| "exit_code Forever = None"

subsection \<open>Reading and writing the progress file\<close>

text \<open>
  \<open>read_init_status\<close>. Under the force flag it logs a warning and returns the empty
  record without opening the file. Otherwise the missing file gives the empty record, and
  so does the text that is not JSON (the \<open>except json.JSONDecodeError\<close> branch); the
  other two errors of \<open>json.load\<close> are not caught.
\<close>

definition read_init_status :: "environ \<Rightarrow> InitStatus prog" where
  "read_init_status env =
     (if force_update env then
        andthen (info ''WARNING: FORCE_INIT is set, forcing init status update'')
          (ret empty_status)
      else (\<lambda>f.
        case f of
          Missing \<Rightarrow> ret empty_status f
        | Undecodable \<Rightarrow> raise UnicodeDecodeError f
        | Overnested \<Rightarrow> raise RecursionError f
        | Unparseable \<Rightarrow> ret empty_status f
        | Stored s \<Rightarrow> ret s f))"

text \<open>\<open>with open(INIT_STATUS_FILE, "w") as f: json.dump(init_status, f)\<close>.\<close>

definition dump_init_status :: "InitStatus \<Rightarrow> unit prog" where
  "dump_init_status init_status =
     (\<lambda>f. (Return (), [WriteFile f (Stored init_status)], Stored init_status))"

text \<open>
  \<open>update_database_init_status\<close>: read the record (through \<open>read_init_status\<close>, so under
  the same force flag), set one entry of the dictionary, dump the record over the file.
\<close>

definition update_database_init_status ::
  "environ \<Rightarrow> string \<Rightarrow> DatabaseStatus \<Rightarrow> unit prog" where
  "update_database_init_status env database_name status =
     bnd (read_init_status env) (\<lambda>init_status.
       dump_init_status
         (init_status\<lparr>dbs_initialized := (dbs_initialized init_status)(database_name \<mapsto> status)\<rparr>))"

text \<open>\<open>update_default_db_init_status\<close>: the same for the flag of the primary database.\<close>

definition update_default_db_init_status :: "environ \<Rightarrow> bool \<Rightarrow> unit prog" where
  "update_default_db_init_status env initialized =
     bnd (read_init_status env) (\<lambda>init_status.
       dump_init_status (init_status\<lparr>default_db_initialized := initialized\<rparr>))"

subsection \<open>The cluster description\<close>

text \<open>
  \<open>class NodeSpec(TypedDict)\<close>. The script tests \<open>"hostname" in node\<close>, so the two host
  names are optional keys; \<open>region\<close> is never read and is left out.
\<close>

record NodeSpec =
  node_spec_id :: string
  node_spec_name :: string
  node_spec_hostname :: "string option"
  node_spec_internal_hostname :: "string option"

text \<open>\<open>class UserSpec(TypedDict)\<close>; \<open>superuser\<close> is read with \<open>user.get\<close>.\<close>

record UserSpec =
  username :: string
  password :: string
  superuser :: "bool option"
  service :: string
  user_type :: string

text \<open>
  \<open>class DatabaseInfo\<close>, the context of one database as \<open>get_default_db_info\<close> and
  \<open>get_dbs_info\<close> build it. \<open>postgres_users\<close> is the dictionary from user name to user,
  in insertion order. \<open>init_username\<close> and \<open>init_dbname\<close> come from \<open>os.getenv\<close> and may be
  \<open>None\<close>.
\<close>

record DatabaseInfo =
  database_name :: string
  owner :: string
  hostname :: string
  mode :: "string option"
  nodes :: "NodeSpec list"
  node_id :: string
  node_name :: string
  postgres_users :: "(string \<times> UserSpec) list"
  spock_dsn :: string
  local_dsn :: string
  internal_dsn :: string
  init_dsn :: string
  init_username :: "string option"
  init_dbname :: "string option"
  pgedge_pw :: string

subsection \<open>Text\<close>

text \<open>\<open>sep.join(xs)\<close>.\<close>

fun join :: "string \<Rightarrow> string list \<Rightarrow> string" where
  "join sep [] = []"
| "join sep [x] = x"
| "join sep (x # y # ys) = x @ sep @ join sep (y # ys)"

text \<open>How an f-string prints an optional string: \<open>None\<close> prints as the word None.\<close>

definition fstr :: "string option \<Rightarrow> string" where
  "fstr v = (case v of None \<Rightarrow> ''None'' | Some s \<Rightarrow> s)"

text \<open>\<open>f"'{x}'"\<close>: a value between single quotes.\<close>

definition quoted :: "string \<Rightarrow> string" where
  "quoted x = [CHR 0x27] @ x @ [CHR 0x27]"

definition default_port :: string where
  "default_port = ''5432''"

text \<open>
  \<open>dsn\<close>: the connection string. The port is passed already printed; every call of the
  script leaves it at its default. The password is appended when it is not empty.
\<close>

definition dsn :: "string \<Rightarrow> string \<Rightarrow> string option \<Rightarrow> string \<Rightarrow> string \<Rightarrow> string" where
  "dsn dbname user pw host port =
     (let fields = [''host='' @ host, ''dbname='' @ dbname, ''user='' @ user, ''port='' @ port];
          fields' = (case pw of
                       None \<Rightarrow> fields
                     | Some p \<Rightarrow> if p \<noteq> [] then fields @ [''password='' @ p] else fields)
      in join '' '' fields')"

definition SUPERUSER_PARAMETERS :: string where
  "SUPERUSER_PARAMETERS = join '', ''
     [''commit_delay'', ''deadlock_timeout'', ''lc_messages'', ''log_duration'',
      ''log_error_verbosity'', ''log_executor_stats'', ''log_lock_waits'',
      ''log_min_duration_sample'', ''log_min_duration_statement'',
      ''log_min_error_statement'', ''log_min_messages'', ''log_parser_stats'',
      ''log_planner_stats'', ''log_replication_commands'', ''log_statement'',
      ''log_statement_sample_rate'', ''log_statement_stats'', ''log_temp_files'',
      ''log_transaction_sample_rate'', ''pg_stat_statements.track'',
      ''pg_stat_statements.track_planning'', ''pg_stat_statements.track_utility'',
      ''session_replication_role'', ''temp_file_limit'', ''track_activities'',
      ''track_counts'', ''track_functions'', ''track_io_timing'']"

text \<open>\<open>get_superuser_roles\<close>: the roles granted to \<open>pgedge_superuser\<close>, chosen by \<open>PGV\<close>.\<close>

definition get_superuser_roles :: "environ \<Rightarrow> error + string" where
  "get_superuser_roles env =
     (let pg_version = PGV env in
      if pg_version = Some ''15'' then
        Inr (join '', ''
          [''pg_read_all_data'', ''pg_write_all_data'', ''pg_read_all_settings'',
           ''pg_read_all_stats'', ''pg_stat_scan_tables'', ''pg_monitor'',
           ''pg_signal_backend'', ''pg_checkpoint''])
      else if pg_version \<in> set [Some ''16'', Some ''17''] then
        Inr (join '', ''
          [''pg_read_all_data'', ''pg_write_all_data'', ''pg_read_all_settings'',
           ''pg_read_all_stats'', ''pg_stat_scan_tables'', ''pg_monitor'',
           ''pg_signal_backend'', ''pg_checkpoint'', ''pg_use_reserved_connections'',
           ''pg_create_subscription''])
      else
        Inl (ValueError (''unrecognized postgres version: '' @ quoted (fstr pg_version))))"

text \<open>\<open>create_user_statement\<close>.\<close>

definition create_user_statement :: "UserSpec \<Rightarrow> string list" where
  "create_user_statement user =
     (if superuser user = Some True then
        [''CREATE USER '' @ username user @ '' WITH LOGIN SUPERUSER PASSWORD ''
           @ quoted (password user) @ '';'']
      else if user_type user \<in> set [''admin'', ''internal_admin''] then
        [''CREATE USER '' @ username user @ '' WITH LOGIN CREATEROLE CREATEDB PASSWORD ''
           @ quoted (password user) @ '';'',
         ''GRANT pgedge_superuser to '' @ username user @ '' WITH ADMIN TRUE;'']
      else
        [''CREATE USER '' @ username user @ '' WITH LOGIN PASSWORD ''
           @ quoted (password user) @ '';''])"

text \<open>\<open>alter_user_statements\<close>.\<close>

definition alter_user_statements :: "UserSpec \<Rightarrow> string \<Rightarrow> string list \<Rightarrow> string list" where
  "alter_user_statements user dbname schemas =
     (let name = username user;
          stmts = [''GRANT CONNECT ON DATABASE '' @ dbname @ '' TO '' @ name @ '';'']
      in if user_type user \<in> set [''application_read_only'', ''internal_read_only'', ''pooler_auth''] then
           (let stmts' = stmts @ concat (map (\<lambda>schema.
                  [''GRANT USAGE ON SCHEMA '' @ schema @ '' TO '' @ name @ '';'',
                   ''GRANT SELECT ON ALL TABLES IN SCHEMA '' @ schema @ '' TO '' @ name @ '';'',
                   ''ALTER DEFAULT PRIVILEGES IN SCHEMA '' @ schema @ '' GRANT SELECT ON TABLES TO ''
                     @ name @ '';'']) schemas)
            in if user_type user = ''internal_read_only'' then
                 stmts' @ [''GRANT EXECUTE ON FUNCTION pg_ls_waldir TO '' @ name @ '';'',
                           ''GRANT pg_read_all_stats TO '' @ name @ '';'']
               else stmts')
         else
           stmts @ concat (map (\<lambda>schema.
             [''GRANT USAGE, CREATE ON SCHEMA '' @ schema @ '' TO '' @ name @ '';'',
              ''GRANT ALL PRIVILEGES ON ALL TABLES IN SCHEMA '' @ schema @ '' TO '' @ name @ '';'',
              ''GRANT ALL PRIVILEGES ON ALL SEQUENCES IN SCHEMA '' @ schema @ '' TO '' @ name @ '';'',
              ''ALTER DEFAULT PRIVILEGES IN SCHEMA '' @ schema @ '' GRANT ALL PRIVILEGES ON TABLES TO ''
                @ name @ '';'',
              ''ALTER DEFAULT PRIVILEGES IN SCHEMA '' @ schema @ '' GRANT ALL PRIVILEGES ON SEQUENCES TO ''
                @ name @ '';'']) schemas))"

text \<open>\<open>get_hostname\<close>: \<open>node["internal_hostname"]\<close> raises \<open>KeyError\<close> when the key is absent.\<close>

definition get_hostname :: "NodeSpec \<Rightarrow> error + string" where
  "get_hostname node =
     (case node_spec_hostname node of
        Some h \<Rightarrow> Inr h
      | None \<Rightarrow> (case node_spec_internal_hostname node of
                   Some h \<Rightarrow> Inr h
                 | None \<Rightarrow> Inl (KeyError ''internal_hostname'')))"

text \<open>The statement built by \<open>spock_sub_create\<close>.\<close>

definition spock_sub_create_sql :: "string \<Rightarrow> string \<Rightarrow> string" where
  "spock_sub_create_sql sub_name other_dsn =
     (let forward_origins = ''{}'';
          replication_sets = ''{default, default_insert_only, ddl_sql}''
      in ''\<newline>    SELECT spock.sub_create(\<newline>        subscription_name := '' @ quoted sub_name
         @ '',\<newline>        provider_dsn := '' @ quoted other_dsn
         @ '',\<newline>        replication_sets := '' @ quoted replication_sets
         @ '',\<newline>        forward_origins := '' @ quoted forward_origins
         @ '',\<newline>        synchronize_structure := 'true',\<newline>        synchronize_data := 'true',\<newline>        apply_delay := '0'\<newline>    );'')"

text \<open>The statement built by \<open>spock_sub_drop\<close>.\<close>

definition spock_sub_drop_sql :: "string \<Rightarrow> string" where
  "spock_sub_drop_sql sub_name =
     ''\<newline>    SELECT spock.sub_drop(\<newline>        subscription_name := '' @ quoted sub_name
     @ '',\<newline>        ifexists := 'true'\<newline>    );''"

subsection \<open>The database engine\<close>

text \<open>
  What the script cannot decide by itself is asked of a \<open>world\<close>:
  \<^item> \<open>reachable dsn\<close>: the single attempt of \<open>can_connect\<close> gets a connection;
  \<^item> \<open>accepts dsn\<close>: the retry loop of \<open>connect\<close> gets a connection in the end;
  \<^item> \<open>fails dsn sql\<close>: \<open>cursor.execute(sql)\<close> raises on the connection opened with \<open>dsn\<close>;
  \<^item> \<open>lands dsn sql\<close>: a statement that is retried until it works does work in the end;
  \<^item> \<open>db_exists name\<close>: \<open>pg_database\<close> has a row for \<open>name\<close>;
  \<^item> \<open>node_visible dsn\<close>: the poll of \<open>wait_for_spock_node\<close> sees a row in the end.
  The failed attempts of a retry loop that succeeds in the end leave only log lines and
  sleeps; the trace does not show them. A retry loop that never succeeds never returns.
\<close>

record world =
  reachable :: "string \<Rightarrow> bool"
  accepts :: "string \<Rightarrow> bool"
  fails :: "string \<Rightarrow> string \<Rightarrow> bool"
  lands :: "string \<Rightarrow> string \<Rightarrow> bool"
  db_exists :: "string \<Rightarrow> bool"
  node_visible :: "string \<Rightarrow> bool"

text \<open>\<open>connect\<close>: \<open>while True: try: return psycopg.connect(...)\<close>.\<close>

definition connect :: "world \<Rightarrow> string \<Rightarrow> bool \<Rightarrow> unit prog" where
  "connect w d autocommit = (if accepts w d then emit (Connect d autocommit) else forever)"

text \<open>\<open>can_connect\<close>: one attempt, \<open>OperationalError\<close> turned into \<open>False\<close>.\<close>

definition can_connect :: "world \<Rightarrow> string \<Rightarrow> bool" where
  "can_connect w d = reachable w d"

text \<open>\<open>cursor.execute(sql)\<close> outside any \<open>try\<close>: an error of the engine is not caught.\<close>

definition execute :: "world \<Rightarrow> string \<Rightarrow> string \<Rightarrow> unit prog" where
  "execute w d sql =
     andthen (emit (Execute d sql))
       (if fails w d sql then raise (DatabaseError sql) else ret ())"

definition execute_params :: "world \<Rightarrow> string \<Rightarrow> string \<Rightarrow> string list \<Rightarrow> unit prog" where
  "execute_params w d sql params =
     andthen (emit (ExecuteParams d sql params))
       (if fails w d sql then raise (DatabaseError sql) else ret ())"

text \<open>\<open>for statement in stmts: cur.execute(statement)\<close>.\<close>

definition execute_all :: "world \<Rightarrow> string \<Rightarrow> string list \<Rightarrow> unit prog" where
  "execute_all w d stmts = for_each (execute w d) stmts"

text \<open>\<open>while True: try: cursor.execute(sql); return; except Exception: ...; time.sleep(2)\<close>.\<close>

definition execute_until_ok :: "world \<Rightarrow> string \<Rightarrow> string \<Rightarrow> unit prog" where
  "execute_until_ok w d sql = (if lands w d sql then emit (Execute d sql) else forever)"

text \<open>\<open>wait_for_spock_node\<close>: connect, then poll until \<open>spock.node\<close> has a row.\<close>

definition wait_for_spock_node :: "world \<Rightarrow> string \<Rightarrow> unit prog" where
  "wait_for_spock_node w d =
     andthen (connect w d True)
       (if node_visible w d then emit (Execute d ''SELECT COUNT(*) FROM spock.node;'')
        else forever)"

text \<open>\<open>spock_sub_create\<close> and \<open>spock_sub_drop\<close> on the cursor of the connection \<open>d\<close>.\<close>

definition spock_sub_create :: "world \<Rightarrow> string \<Rightarrow> string \<Rightarrow> string \<Rightarrow> unit prog" where
  "spock_sub_create w d sub_name other_dsn =
     execute_until_ok w d (spock_sub_create_sql sub_name other_dsn)"

definition spock_sub_drop :: "world \<Rightarrow> string \<Rightarrow> string \<Rightarrow> unit prog" where
  "spock_sub_drop w d sub_name = execute_until_ok w d (spock_sub_drop_sql sub_name)"

subsection \<open>The phases\<close>

definition set_log_statement :: string where
  "set_log_statement = ''SET log_statement = 'none';''"

text \<open>\<open>init_spock_node\<close>: three connections, each with its batch of statements.\<close>

definition init_spock_node :: "world \<Rightarrow> DatabaseInfo \<Rightarrow> string list \<Rightarrow> unit prog" where
  "init_spock_node w db_info schemas =
     block [
       connect w (spock_dsn db_info) False,
       execute w (spock_dsn db_info) set_log_statement,
       execute_all w (spock_dsn db_info)
         ([''CREATE EXTENSION IF NOT EXISTS spock;'',
           ''CREATE EXTENSION IF NOT EXISTS snowflake;'',
           ''CREATE EXTENSION IF NOT EXISTS pg_stat_statements;'']
          @ (if ''pgcat_auth'' \<in> set (map fst (postgres_users db_info))
             then [''GRANT SELECT ON pg_shadow TO pgcat_auth;''] else [])
          @ concat (map (\<lambda>user. alter_user_statements user (database_name db_info) schemas)
                        (map snd (postgres_users db_info)))
          @ [''SELECT spock.node_create(node_name := '' @ quoted (node_name db_info)
               @ '', dsn := '' @ quoted (spock_dsn db_info) @ '') WHERE ''
               @ quoted (node_name db_info) @ '' NOT IN (SELECT node_name FROM spock.node);'']),
       connect w (local_dsn db_info) True,
       execute w (local_dsn db_info) set_log_statement,
       execute_all w (local_dsn db_info)
         (concat (map (\<lambda>user. alter_user_statements user (database_name db_info) [''public''])
                      (map snd (postgres_users db_info)))),
       connect w (spock_dsn db_info) False,
       execute w (spock_dsn db_info) set_log_statement,
       execute_all w (spock_dsn db_info)
         (concat (map (\<lambda>user. alter_user_statements user (database_name db_info) schemas)
                      (map snd (postgres_users db_info))))]"

text \<open>
  The body of the loop over the peers in \<open>init_peer_spock_subscriptions\<close>; \<open>d\<close> is the
  connection of the cursor, opened before the loop with \<open>local_dsn\<close>.
\<close>

definition subscribe_peer :: "world \<Rightarrow> DatabaseInfo \<Rightarrow> bool \<Rightarrow> NodeSpec \<Rightarrow> unit prog" where
  "subscribe_peer w db_info drop_existing peer =
     andthen (info (''waiting for peer: '' @ node_spec_name peer))
       (case get_hostname peer of
          Inl e \<Rightarrow> raise e
        | Inr host \<Rightarrow>
            (let peer_dsn = dsn (database_name db_info) ''pgedge'' None host default_port;
                 sub_name = ''sub_'' @ database_name db_info @ ''_'' @ node_name db_info
                            @ ''_'' @ node_spec_name peer
             in block [
                  wait_for_spock_node w peer_dsn,
                  (if drop_existing then spock_sub_drop w (local_dsn db_info) sub_name
                   else ret ()),
                  sleep 2,
                  spock_sub_create w (local_dsn db_info) sub_name peer_dsn,
                  info (''subscribed to peer: '' @ node_spec_name peer)]))"

text \<open>\<open>init_peer_spock_subscriptions\<close>: \<open>False\<close> when there is no peer, \<open>True\<close> after the loop.\<close>

definition init_peer_spock_subscriptions :: "world \<Rightarrow> DatabaseInfo \<Rightarrow> bool \<Rightarrow> bool prog" where
  "init_peer_spock_subscriptions w db_info drop_existing =
     (let peers = filter (\<lambda>node. node_spec_id node \<noteq> node_id db_info) (nodes db_info)
      in if length peers = 0 then
           andthen
             (info (''no peers found for database '' @ database_name db_info
                    @ '', skipping peer spock subscriptions''))
             (ret False)
         else
           andthen (connect w (local_dsn db_info) False)
             (andthen (for_each (subscribe_peer w db_info drop_existing) peers)
                (ret True)))"

definition default_schemas :: "string list" where
  "default_schemas = [''public'', ''spock'', ''pg_catalog'', ''information_schema'']"

text \<open>
  \<open>init_default_database\<close>, the one-time bootstrap of the primary database. The list of
  statements is built before any of them is sent, so a \<open>ValueError\<close> of
  \<open>get_superuser_roles\<close> comes before the first of them.
\<close>

definition init_default_database :: "environ \<Rightarrow> world \<Rightarrow> DatabaseInfo \<Rightarrow> unit prog" where
  "init_default_database env w db_info =
     bnd (read_init_status env) (\<lambda>init_status.
     (let admin_username = owner db_info
      in if default_db_initialized init_status then
           info ''default database already initialized, skipping''
         else
           block [
             connect w (init_dsn db_info) True,
             (if init_dsn db_info = [] then
                andthen
                  (info ''ERROR: init_dsn not found in spec, skipping default database initialization'')
                  (sys_exit 1)
              else ret ()),
             execute w (init_dsn db_info) set_log_statement,
             (case get_superuser_roles env of
                Inl e \<Rightarrow> raise e
              | Inr roles \<Rightarrow>
                  execute_all w (init_dsn db_info)
                    ([''CREATE ROLE pgedge_superuser WITH NOLOGIN;'',
                      ''GRANT '' @ roles @ '' TO pgedge_superuser WITH ADMIN true;'',
                      ''GRANT SET ON PARAMETER '' @ SUPERUSER_PARAMETERS @ '' TO pgedge_superuser;'']
                     @ concat (map create_user_statement (map snd (postgres_users db_info)))
                     @ [''CREATE DATABASE '' @ database_name db_info @ '' OWNER '' @ admin_username @ '';'',
                        ''GRANT ALL PRIVILEGES ON DATABASE '' @ database_name db_info @ '' TO ''
                          @ admin_username @ '';'',
                        ''GRANT ALL PRIVILEGES ON DATABASE '' @ fstr (init_dbname db_info) @ '' TO ''
                          @ admin_username @ '';'',
                        ''GRANT ALL PRIVILEGES ON DATABASE '' @ database_name db_info @ '' TO pgedge;'',
                        ''ALTER USER pgedge WITH PASSWORD '' @ quoted (pgedge_pw db_info)
                          @ '' LOGIN SUPERUSER REPLICATION;''])),
             info ''successfully bootstrapped database users'',
             connect w (internal_dsn db_info) True,
             execute w (internal_dsn db_info) set_log_statement,
             execute_all w (internal_dsn db_info)
               [''DROP DATABASE '' @ fstr (init_dbname db_info) @ '';'',
                ''DROP USER '' @ fstr (init_username db_info) @ '';''],
             info ''successfully dropped init database'',
             init_spock_node w db_info default_schemas,
             sleep 5,
             bnd (init_peer_spock_subscriptions w db_info True) (\<lambda>subscribed.
               if \<not> subscribed then
                 info (''No need to subscribe to peers for '' @ database_name db_info @ '', skipping'')
               else
                 andthen
                   (info (''default database initialized ('' @ node_name db_info @ '')''))
                   (update_default_db_init_status env True))]))"

text \<open>\<open>init_database\<close>: the creation phase of one additional database.\<close>

definition init_database :: "environ \<Rightarrow> world \<Rightarrow> DatabaseInfo \<Rightarrow> unit prog" where
  "init_database env w db_info =
     bnd (read_init_status env) (\<lambda>init_status.
     (let current_status = dbs_initialized init_status (database_name db_info)
      in if current_status \<noteq> None then
           info (''database '' @ database_name db_info @ '' already fully initialized, skipping'')
         else
           block [
             connect w (internal_dsn db_info) True,
             execute w (internal_dsn db_info) set_log_statement,
             execute_params w (internal_dsn db_info)
               ''SELECT 1 FROM pg_database WHERE datname = %s'' [database_name db_info],
             (if \<not> db_exists w (database_name db_info) then
                andthen
                  (execute w (internal_dsn db_info)
                     (''CREATE DATABASE '' @ database_name db_info @ '' OWNER '' @ owner db_info @ '';''))
                  (info (''created database '' @ database_name db_info))
              else
                info (''database '' @ database_name db_info @ '' already exists'')),
             execute_all w (internal_dsn db_info)
               [''GRANT ALL PRIVILEGES ON DATABASE '' @ database_name db_info @ '' TO ''
                  @ owner db_info @ '';'',
                ''GRANT ALL PRIVILEGES ON DATABASE '' @ database_name db_info @ '' TO pgedge;''],
             update_database_init_status env (database_name db_info) CREATED,
             info (''successfully configured database '' @ database_name db_info)]))"

subsection \<open>The main procedure\<close>

text \<open>The body of the second loop of \<open>main\<close>: the replication node of one database.\<close>

definition spock_node_step :: "environ \<Rightarrow> world \<Rightarrow> string list \<Rightarrow> DatabaseInfo \<Rightarrow> unit prog" where
  "spock_node_step env w schemas db_info =
     bnd (read_init_status env) (\<lambda>init_status.
     (let current_status = dbs_initialized init_status (database_name db_info)
      in if current_status = None then
           andthen
             (info (''database '' @ database_name db_info
                    @ '' not initialized, something went wrong! Please restart the node.''))
             (sys_exit 1)
         else if current_status = Some CREATED then
           block [
             info (''database '' @ database_name db_info @ '' created, initializing spock node''),
             init_spock_node w db_info schemas,
             update_database_init_status env (database_name db_info) INITED,
             sleep 5,
             info (''spock node of '' @ database_name db_info @ '' initialized.'')]
         else
           info (''database spock node '' @ database_name db_info
                 @ '' already initialized, skipping'')))"

text \<open>The body of the third loop of \<open>main\<close>: the subscriptions of one database.\<close>

definition peer_subscription_step :: "environ \<Rightarrow> world \<Rightarrow> DatabaseInfo \<Rightarrow> unit prog" where
  "peer_subscription_step env w db_info =
     bnd (read_init_status env) (\<lambda>init_status.
     (let current_status = dbs_initialized init_status (database_name db_info)
      in if current_status = Some SUBSCRIBED then
           info (''database '' @ database_name db_info @ '' already subscribed to peers, skipping'')
         else
           andthen
             (info (''database '' @ database_name db_info @ '' not subscribed to peers, subscribing''))
             (bnd (init_peer_spock_subscriptions w db_info True) (\<lambda>subscribed.
                if subscribed then
                  andthen
                    (update_database_init_status env (database_name db_info) SUBSCRIBED)
                    (info (''database '' @ database_name db_info @ '' subscribed to peers''))
                else
                  info (''No need to subscribe to peers for '' @ database_name db_info
                        @ '', skipping'')))))"

text \<open>
  The part of \<open>main\<close> after the primary database: the three loops over the additional
  databases and the closing log line. That line reads the loop variable \<open>db_info\<close>, which
  is unbound when the list is empty.
\<close>

definition init_other_databases :: "environ \<Rightarrow> world \<Rightarrow> DatabaseInfo list \<Rightarrow> unit prog" where
  "init_other_databases env w dbs_info =
     block [
       for_each (init_database env w) dbs_info,
       for_each (spock_node_step env w default_schemas) dbs_info,
       for_each (peer_subscription_step env w) dbs_info,
       (if dbs_info = [] then raise (UnboundLocalError ''db_info'')
        else info (''cluster node initialized ('' @ node_name (last dbs_info) @ '')''))]"

text \<open>
  \<open>main\<close>, from the point where the cluster description has been read:
  \<open>default_db_info\<close> is the result of \<open>get_default_db_info\<close> and \<open>dbs_info\<close> the result of
  \<open>get_dbs_info\<close>. In offline mode the script sleeps for ever. Python's \<open>and\<close> does not
  probe the admin connection when the seed connection answers.
\<close>

definition main :: "environ \<Rightarrow> world \<Rightarrow> DatabaseInfo \<Rightarrow> DatabaseInfo list \<Rightarrow> unit prog" where
  "main env w default_db_info dbs_info =
     (if mode default_db_info = Some ''offline'' then
        andthen (info ''mode offline configured, postgres will not start'') forever
      else
        block [
          sleep 3,
          (let initialized = (\<not> can_connect w (init_dsn default_db_info)
                              \<and> can_connect w (local_dsn default_db_info))
           in if initialized then
                info ''database node already initialized, skipping initialization.''
              else
                andthen (info ''initializing database node...'')
                  (init_default_database env w default_db_info)),
          init_other_databases env w dbs_info])"

subsection \<open>A run up to one database\<close>

text \<open>
  The first steps of \<open>main\<close> in online mode: the pause and the bootstrap of the primary
  database, entered unless the node is seen as initialized.
\<close>

definition before_loops :: "environ \<Rightarrow> world \<Rightarrow> DatabaseInfo \<Rightarrow> unit prog" where
  "before_loops env w default_db_info =
     andthen (sleep 3)
       (let initialized = (\<not> can_connect w (init_dsn default_db_info)
                           \<and> can_connect w (local_dsn default_db_info))
        in if initialized then
             info ''database node already initialized, skipping initialization.''
           else
             andthen (info ''initializing database node...'')
               (init_default_database env w default_db_info))"

text \<open>
  The part of an online run of \<open>main\<close> on the databases \<open>dbs_info\<close> that comes before one
  of its three loops reaches the database that follows \<open>pre\<close> in the list: everything up
  to the moment the first loop (creation) comes to that database, the second loop
  (replication node) comes to it, the third loop (subscriptions) comes to it.
\<close>

definition until_creation ::
  "environ \<Rightarrow> world \<Rightarrow> DatabaseInfo \<Rightarrow> DatabaseInfo list \<Rightarrow> unit prog" where
  "until_creation env w default_db_info pre =
     andthen (before_loops env w default_db_info) (for_each (init_database env w) pre)"

definition until_node_init ::
  "environ \<Rightarrow> world \<Rightarrow> DatabaseInfo \<Rightarrow> DatabaseInfo list \<Rightarrow> DatabaseInfo list \<Rightarrow> unit prog" where
  "until_node_init env w default_db_info dbs_info pre =
     andthen (before_loops env w default_db_info)
       (andthen (for_each (init_database env w) dbs_info)
          (for_each (spock_node_step env w default_schemas) pre))"

definition until_rendezvous ::
  "environ \<Rightarrow> world \<Rightarrow> DatabaseInfo \<Rightarrow> DatabaseInfo list \<Rightarrow> DatabaseInfo list \<Rightarrow> unit prog" where
  "until_rendezvous env w default_db_info dbs_info pre =
     andthen (before_loops env w default_db_info)
       (andthen (for_each (init_database env w) dbs_info)
          (andthen (for_each (spock_node_step env w default_schemas) dbs_info)
             (for_each (peer_subscription_step env w) pre)))"

subsection \<open>Properties of runs\<close>

text \<open>
  A program is quiet when it neither writes the progress file nor leaves it changed.
\<close>

definition quiet :: "'a prog \<Rightarrow> bool" where
  "quiet p \<longleftrightarrow>
     (\<forall>f. file_of (p f) = f \<and> (\<forall>old new. WriteFile old new \<notin> set (events_of (p f))))"

text \<open>A write moves forward when no database has a lower status after it than before.\<close>

definition forward_write :: "event \<Rightarrow> bool" where
  "forward_write e =
     (case e of
        WriteFile old new \<Rightarrow>
          (\<forall>d. status_rank (recorded_status old d) \<le> status_rank (recorded_status new d))
      | _ \<Rightarrow> True)"

text \<open>
  A program is steady from a file when each of its writes moves forward and the file it
  leaves records, for every database, a status at least as high as the one it found.
\<close>

definition steady :: "'a prog \<Rightarrow> status_file \<Rightarrow> bool" where
  "steady p f \<longleftrightarrow>
     (\<forall>e \<in> set (events_of (p f)). forward_write e)
     \<and> (\<forall>d. status_rank (recorded_status f d) \<le> status_rank (recorded_status (file_of (p f)) d))"

text \<open>The statements of a trace, each with the connection it was sent on, in order.\<close>

fun executed :: "event list \<Rightarrow> (string \<times> string) list" where
  "executed [] = []"
| "executed (Execute d sql # es) = (d, sql) # executed es"
| "executed (e # es) = executed es"

text \<open>
  A program keeps the status \<open>st\<close> of the database \<open>d\<close> when, started on a file that records
  it, it leaves a file that records it. A program is without lookup of \<open>d\<close> when it never
  sends the parameterized query of the creation phase for \<open>d\<close>.
\<close>

definition keeps :: "string \<Rightarrow> DatabaseStatus \<Rightarrow> 'a prog \<Rightarrow> bool" where
  "keeps d st p \<longleftrightarrow>
     (\<forall>f. recorded_status f d = Some st \<longrightarrow> recorded_status (file_of (p f)) d = Some st)"

definition without_lookup :: "string \<Rightarrow> 'a prog \<Rightarrow> bool" where
  "without_lookup d p \<longleftrightarrow> (\<forall>f c sql. ExecuteParams c sql [d] \<notin> set (events_of (p f)))"

subsection \<open>A sample cluster\<close>

text \<open>
  Two nodes \<open>n1\<close> (this node) and \<open>n2\<close>, one admin user, the primary database \<open>main\<close>
  and contexts for additional databases, as \<open>get_default_db_info\<close> and \<open>get_dbs_info\<close>
  build them; an environment without the force flag and one with it; an engine on which
  everything succeeds, seen at first start (\<open>fresh_world\<close>: neither probe answers, no
  database exists yet) and at a restart (\<open>restart_world\<close>: the seed is gone and the admin
  connection answers).
\<close>

definition sample_env :: environ where
  "sample_env = \<lparr>FORCE_INIT = None, PGV = Some ''16''\<rparr>"

definition forced_env :: environ where
  "forced_env = \<lparr>FORCE_INIT = Some ''true'', PGV = Some ''16''\<rparr>"

definition n1 :: NodeSpec where
  "n1 = \<lparr>node_spec_id = ''1'', node_spec_name = ''n1'', node_spec_hostname = Some ''h1'',
          node_spec_internal_hostname = None\<rparr>"

definition n2 :: NodeSpec where
  "n2 = \<lparr>node_spec_id = ''2'', node_spec_name = ''n2'', node_spec_hostname = Some ''h2'',
          node_spec_internal_hostname = None\<rparr>"

definition admin_user :: UserSpec where
  "admin_user = \<lparr>username = ''admin'', password = ''pw'', superuser = None,
                  service = ''postgres'', user_type = ''admin''\<rparr>"

definition sample_db :: "string \<Rightarrow> NodeSpec list \<Rightarrow> DatabaseInfo" where
  "sample_db n ns =
     \<lparr>database_name = n, owner = ''admin'', hostname = ''h1'', mode = Some ''online'',
      nodes = ns, node_id = ''1'', node_name = ''n1'',
      postgres_users = [(''admin'', admin_user)],
      spock_dsn = dsn n ''pgedge'' (Some ''s'') ''h1'' default_port,
      local_dsn = dsn n ''admin'' (Some ''pw'') ''localhost'' default_port,
      internal_dsn = dsn ''main'' ''pgedge'' (Some ''s'') ''localhost'' default_port,
      init_dsn = dsn ''init'' ''seed'' (Some ''s'') ''localhost'' default_port,
      init_username = Some ''seed'', init_dbname = Some ''init'', pgedge_pw = ''s''\<rparr>"

definition fresh_world :: world where
  "fresh_world =
     \<lparr>reachable = (\<lambda>_. False), accepts = (\<lambda>_. True), fails = (\<lambda>_ _. False),
      lands = (\<lambda>_ _. True), db_exists = (\<lambda>_. False), node_visible = (\<lambda>_. True)\<rparr>"

definition restart_world :: world where
  "restart_world =
     \<lparr>reachable = (\<lambda>d. d = dsn ''main'' ''admin'' (Some ''pw'') ''localhost'' default_port),
      accepts = (\<lambda>_. True), fails = (\<lambda>_ _. False),
      lands = (\<lambda>_ _. True), db_exists = (\<lambda>_. True), node_visible = (\<lambda>_. True)\<rparr>"

subsection \<open>One round of the peer rendezvous, in the words of the specification\<close>

text \<open>
  What the specification says happens for one peer, written out as the events it should
  leave: wait until the peer shows a replication node, drop the subscription named from
  the database, this node and the peer, pause, and create the subscription of that same
  name with the replication sets \<open>default\<close>, \<open>default_insert_only\<close> and \<open>ddl_sql\<close>, no
  forwarded origins, structure and data synchronized and no apply delay. The texts are
  spelled out here, not taken from the functions that build them in the script.
\<close>

definition peer_host :: "NodeSpec \<Rightarrow> string" where
  "peer_host peer = (case get_hostname peer of Inr h \<Rightarrow> h | Inl _ \<Rightarrow> [])"

definition subscription_name :: "string \<Rightarrow> string \<Rightarrow> string \<Rightarrow> string" where
  "subscription_name database self peer = ''sub_'' @ database @ ''_'' @ self @ ''_'' @ peer"

definition subscription_round :: "DatabaseInfo \<Rightarrow> NodeSpec \<Rightarrow> event list" where
  "subscription_round db_info peer =
     (let name = subscription_name (database_name db_info) (node_name db_info) (node_spec_name peer);
          provider = ''host='' @ peer_host peer @ '' dbname='' @ database_name db_info
                     @ '' user=pgedge port=5432''
      in [Info (''waiting for peer: '' @ node_spec_name peer),
          Connect provider True,
          Execute provider ''SELECT COUNT(*) FROM spock.node;'',
          Execute (local_dsn db_info)
            (''\<newline>    SELECT spock.sub_drop(\<newline>        subscription_name := '' @ quoted name
             @ '',\<newline>        ifexists := 'true'\<newline>    );''),
          Sleep 2,
          Execute (local_dsn db_info)
            (''\<newline>    SELECT spock.sub_create(\<newline>        subscription_name := '' @ quoted name
             @ '',\<newline>        provider_dsn := '' @ quoted provider
             @ '',\<newline>        replication_sets := '{default, default_insert_only, ddl_sql}',\<newline>        forward_origins := '{}',\<newline>        synchronize_structure := 'true',\<newline>        synchronize_data := 'true',\<newline>        apply_delay := '0'\<newline>    );''),
          Info (''subscribed to peer: '' @ node_spec_name peer)])"

section \<open>Proofs\<close>

subsection \<open>Running programs\<close>

lemma outcome_of_triple [simp]: "outcome_of (r, t, f) = r" by (simp add: outcome_of_def)
lemma events_of_triple [simp]: "events_of (r, t, f) = t" by (simp add: events_of_def)
lemma file_of_triple [simp]: "file_of (r, t, f) = f" by (simp add: file_of_def)

lemma ret_apply [simp]: "ret a f = (Return a, [], f)" by (simp add: ret_def)
lemma emit_apply [simp]: "emit e f = (Return (), [e], f)" by (simp add: emit_def)
lemma info_apply [simp]: "info m f = (Return (), [Info m], f)" by (simp add: info_def)
lemma sleep_apply [simp]: "sleep n f = (Return (), [Sleep n], f)" by (simp add: sleep_def)
lemma sys_exit_apply [simp]: "sys_exit n f = (Exit n, [], f)" by (simp add: sys_exit_def)
lemma raise_apply [simp]: "raise e f = (Raised e, [], f)" by (simp add: raise_def)
lemma forever_apply [simp]: "forever f = (Forever, [], f)" by (simp add: forever_def)

lemma bnd_Return: "m f = (Return a, t, f') \<Longrightarrow> bnd m k f = (outcome_of (k a f'), t @ events_of (k a f'), file_of (k a f'))"
  by (simp add: bnd_def outcome_of_def events_of_def file_of_def split: prod.splits)
lemma bnd_Exit: "m f = (Exit n, t, f') \<Longrightarrow> bnd m k f = (Exit n, t, f')"
  by (simp add: bnd_def)
lemma bnd_Raised: "m f = (Raised e, t, f') \<Longrightarrow> bnd m k f = (Raised e, t, f')"
  by (simp add: bnd_def)
lemma bnd_Forever: "m f = (Forever, t, f') \<Longrightarrow> bnd m k f = (Forever, t, f')"
  by (simp add: bnd_def)

lemma events_of_bnd:
  "events_of (bnd m k f) =
     events_of (m f) @ (case outcome_of (m f) of Return a \<Rightarrow> events_of (k a (file_of (m f))) | _ \<Rightarrow> [])"
proof -
  obtain r t f' where mf: "m f = (r, t, f')" by (cases "m f") auto
  show ?thesis
    by (cases r) (simp_all add: mf bnd_Return bnd_Exit bnd_Raised bnd_Forever)
qed

lemma file_of_bnd:
  "file_of (bnd m k f) =
     (case outcome_of (m f) of Return a \<Rightarrow> file_of (k a (file_of (m f))) | _ \<Rightarrow> file_of (m f))"
proof -
  obtain r t f' where mf: "m f = (r, t, f')" by (cases "m f") auto
  show ?thesis
    by (cases r) (simp_all add: mf bnd_Return bnd_Exit bnd_Raised bnd_Forever)
qed

lemma outcome_of_bnd:
  "outcome_of (bnd m k f) =
     (case outcome_of (m f) of
        Return a \<Rightarrow> outcome_of (k a (file_of (m f)))
      | Exit n \<Rightarrow> Exit n
      | Raised e \<Rightarrow> Raised e
      | Forever \<Rightarrow> Forever)"
proof -
  obtain r t f' where mf: "m f = (r, t, f')" by (cases "m f") auto
  show ?thesis
    by (cases r) (simp_all add: mf bnd_Return bnd_Exit bnd_Raised bnd_Forever)
qed

lemma bnd_ret_right: "bnd m ret = m"
proof
  fix f
  obtain r t f' where mf: "m f = (r, t, f')" by (cases "m f") auto
  show "bnd m ret f = m f"
    by (cases r) (simp_all add: mf bnd_Return bnd_Exit bnd_Raised bnd_Forever)
qed

lemma andthen_ret_right: "andthen m (ret ()) = m"
proof -
  have "(\<lambda>_::unit. ret ()) = ret" by (rule ext) simp
  then show ?thesis by (simp add: andthen_def bnd_ret_right)
qed

lemma bnd_assoc: "bnd (bnd m k) h = bnd m (\<lambda>a. bnd (k a) h)"
proof
  fix f
  obtain r t f' where mf: "m f = (r, t, f')" by (cases "m f") auto
  show "bnd (bnd m k) h f = bnd m (\<lambda>a. bnd (k a) h) f"
  proof (cases r)
    case (Return a)
    obtain r2 t2 f2 where kf: "k a f' = (r2, t2, f2)" by (cases "k a f'") auto
    have l: "bnd m k f = (r2, t @ t2, f2)"
      using mf Return kf by (simp add: bnd_Return)
    show ?thesis
      by (cases r2)
         (simp_all add: l mf Return kf bnd_Return bnd_Exit bnd_Raised bnd_Forever)
  qed (simp_all add: mf bnd_Exit bnd_Raised bnd_Forever)
qed

lemma andthen_assoc: "andthen (andthen a b) c = andthen a (andthen b c)"
  by (simp add: andthen_def bnd_assoc)

lemma andthen_emit:
  "andthen (emit e) k f = (outcome_of (k f), e # events_of (k f), file_of (k f))"
  by (simp add: andthen_def bnd_Return [where a = "()" and t = "[e]" and f' = f])

lemma andthen_info:
  "andthen (info m) k f = (outcome_of (k f), Info m # events_of (k f), file_of (k f))"
  by (simp add: info_def andthen_emit)

lemma andthen_sleep:
  "andthen (sleep n) k f = (outcome_of (k f), Sleep n # events_of (k f), file_of (k f))"
  by (simp add: sleep_def andthen_emit)

lemma for_each_append:
  "for_each body (xs @ ys) = andthen (for_each body xs) (for_each body ys)"
proof (induction xs)
  case Nil
  show ?case
  proof
    fix f show "for_each body ([] @ ys) f = andthen (for_each body []) (for_each body ys) f"
      by (cases "for_each body ys f")
         (simp add: andthen_def bnd_Return [where a = "()" and t = "[]" and f' = f])
  qed
next
  case (Cons x xs)
  then show ?case by (simp add: andthen_assoc)
qed


lemma andthen_raise: "andthen (raise e) k f = (Raised e, [], f)"
  by (simp add: andthen_def bnd_Raised [where t = "[]" and f' = f])

lemma andthen_sys_exit: "andthen (sys_exit n) k f = (Exit n, [], f)"
  by (simp add: andthen_def bnd_Exit [where t = "[]" and f' = f])

lemma andthen_Return:
  "m f = (Return (), t, f') \<Longrightarrow>
   andthen m k f = (outcome_of (k f'), t @ events_of (k f'), file_of (k f'))"
  by (simp add: andthen_def bnd_Return)

lemma andthen_Exit: "m f = (Exit n, t, f') \<Longrightarrow> andthen m k f = (Exit n, t, f')"
  by (simp add: andthen_def bnd_Exit)

lemma andthen_forever: "andthen forever k f = (Forever, [], f)"
  by (simp add: andthen_def bnd_Forever [where t = "[]" and f' = f])

lemma andthen_outcome_Return:
  assumes "outcome_of (andthen m k f) = Return a"
  shows "outcome_of (m f) = Return () \<and> outcome_of (k (file_of (m f))) = Return a"
  using assms
  by (cases "outcome_of (m f)") (simp_all add: andthen_def outcome_of_bnd)

lemma quiet_result: "quiet p \<Longrightarrow> p f = (outcome_of (p f), events_of (p f), f)"
  by (cases "p f") (auto simp add: quiet_def dest: spec [where x = f])

lemma quiet_ret: "quiet (ret a)" by (simp add: quiet_def)
lemma quiet_info: "quiet (info m)" by (simp add: quiet_def)
lemma quiet_sleep: "quiet (sleep n)" by (simp add: quiet_def)
lemma quiet_sys_exit: "quiet (sys_exit n)" by (simp add: quiet_def)
lemma quiet_raise: "quiet (raise e)" by (simp add: quiet_def)
lemma quiet_forever: "quiet forever" by (simp add: quiet_def)
lemma quiet_emit: "(\<And>old new. e \<noteq> WriteFile old new) \<Longrightarrow> quiet (emit e)" by (auto simp add: quiet_def)

lemma quiet_bnd: "quiet m \<Longrightarrow> (\<And>a. quiet (k a)) \<Longrightarrow> quiet (bnd m k)"
  unfolding quiet_def
  by (auto simp add: events_of_bnd file_of_bnd split: outcome.splits)

lemma quiet_andthen: "quiet m \<Longrightarrow> quiet k \<Longrightarrow> quiet (andthen m k)"
  by (simp add: andthen_def quiet_bnd)

lemma quiet_if: "(c \<Longrightarrow> quiet p) \<Longrightarrow> (\<not> c \<Longrightarrow> quiet q) \<Longrightarrow> quiet (if c then p else q)"
  by simp

lemma quiet_block: "(\<And>p. p \<in> set ps \<Longrightarrow> quiet p) \<Longrightarrow> quiet (block ps)"
  by (induction ps) (simp_all add: quiet_ret quiet_andthen)

lemma quiet_for_each: "(\<And>x. quiet (body x)) \<Longrightarrow> quiet (for_each body xs)"
  by (induction xs) (simp_all add: quiet_ret quiet_andthen)

lemma quiet_connect: "quiet (connect w d a)"
  by (simp add: connect_def quiet_emit quiet_forever)

lemma quiet_execute: "quiet (execute w d sql)"
  by (simp add: execute_def quiet_andthen quiet_emit quiet_raise quiet_ret)

lemma quiet_execute_params: "quiet (execute_params w d sql ps)"
  by (simp add: execute_params_def quiet_andthen quiet_emit quiet_raise quiet_ret)

lemma quiet_execute_all: "quiet (execute_all w d stmts)"
  by (simp add: execute_all_def quiet_for_each quiet_execute)

lemma quiet_execute_until_ok: "quiet (execute_until_ok w d sql)"
  by (simp add: execute_until_ok_def quiet_emit quiet_forever)

lemma quiet_wait_for_spock_node: "quiet (wait_for_spock_node w d)"
  by (simp add: wait_for_spock_node_def quiet_andthen quiet_connect quiet_emit quiet_forever)

lemma quiet_spock_sub_create: "quiet (spock_sub_create w d n o')"
  by (simp add: spock_sub_create_def quiet_execute_until_ok)

lemma quiet_spock_sub_drop: "quiet (spock_sub_drop w d n)"
  by (simp add: spock_sub_drop_def quiet_execute_until_ok)

lemmas quiet_basics = quiet_ret quiet_info quiet_sleep quiet_sys_exit quiet_raise quiet_forever
  quiet_connect quiet_execute quiet_execute_params quiet_execute_all quiet_execute_until_ok
  quiet_wait_for_spock_node quiet_spock_sub_create quiet_spock_sub_drop

lemma quiet_init_spock_node: "quiet (init_spock_node w db_info schemas)"
  unfolding init_spock_node_def block.simps
  by (intro quiet_andthen quiet_basics)

lemma quiet_subscribe_peer: "quiet (subscribe_peer w db_info drop_existing peer)"
  unfolding subscribe_peer_def Let_def block.simps
  by (auto intro!: quiet_andthen quiet_basics split: sum.splits)

lemma quiet_init_peer_spock_subscriptions:
  "quiet (init_peer_spock_subscriptions w db_info drop_existing)"
  unfolding init_peer_spock_subscriptions_def Let_def
  by (auto intro!: quiet_andthen quiet_basics quiet_for_each quiet_subscribe_peer)

lemma events_of_andthen_quiet:
  assumes "quiet m"
  shows "events_of (andthen m k f) =
     events_of (m f) @ (if outcome_of (m f) = Return () then events_of (k f) else [])"
proof -
  have same: "file_of (m f) = f" using assms by (simp add: quiet_def)
  show ?thesis
    by (cases "outcome_of (m f)") (simp_all add: andthen_def events_of_bnd same)
qed

lemma file_of_andthen_quiet:
  assumes "quiet m"
  shows "file_of (andthen m k f) = (if outcome_of (m f) = Return () then file_of (k f) else f)"
proof -
  have same: "file_of (m f) = f" using assms by (simp add: quiet_def)
  show ?thesis
    by (cases "outcome_of (m f)") (simp_all add: andthen_def file_of_bnd same)
qed

subsection \<open>Reading the progress file\<close>

lemma read_init_status_forced:
  "force_update env \<Longrightarrow>
   read_init_status env f =
     (Return empty_status, [Info ''WARNING: FORCE_INIT is set, forcing init status update''], f)"
  by (simp add: read_init_status_def andthen_info)

lemma read_init_status_unforced:
  "\<not> force_update env \<Longrightarrow>
   read_init_status env f =
     (case f of
        Missing \<Rightarrow> (Return empty_status, [], f)
      | Undecodable \<Rightarrow> (Raised UnicodeDecodeError, [], f)
      | Overnested \<Rightarrow> (Raised RecursionError, [], f)
      | Unparseable \<Rightarrow> (Return empty_status, [], f)
      | Stored s \<Rightarrow> (Return s, [], f))"
  by (cases f) (simp_all add: read_init_status_def)

lemma quiet_read_init_status: "quiet (read_init_status env)"
proof (cases "force_update env")
  case True
  then show ?thesis by (simp add: quiet_def read_init_status_forced)
next
  case False
  show ?thesis
    unfolding quiet_def
  proof
    fix f show "file_of (read_init_status env f) = f \<and>
        (\<forall>old new. WriteFile old new \<notin> set (events_of (read_init_status env f)))"
      by (cases f) (simp_all add: read_init_status_unforced [OF False])
  qed
qed

lemma read_init_status_result:
  "read_init_status env f =
     (outcome_of (read_init_status env f), events_of (read_init_status env f), f)"
  by (rule quiet_result [OF quiet_read_init_status])

lemma read_Return_recorded:
  assumes "\<not> force_update env" and "outcome_of (read_init_status env f) = Return s"
  shows "dbs_initialized s d = recorded_status f d \<and> default_db_initialized s = recorded_default f"
  using assms
  by (cases f)
     (auto simp add: read_init_status_unforced recorded_status_def recorded_default_def
        empty_status_def)

lemma read_unforced_events:
  "\<not> force_update env \<Longrightarrow> events_of (read_init_status env f) = []"
  by (cases f) (simp_all add: read_init_status_unforced)

subsection \<open>Steady programs\<close>

lemma quiet_steady: "quiet p \<Longrightarrow> steady p f"
  by (auto simp add: quiet_def steady_def forward_write_def split: event.splits)

lemma steady_bnd:
  assumes "steady m f" and "\<And>a f'. steady (k a) f'"
  shows "steady (bnd m k) f"
proof (cases "outcome_of (m f)")
  case (Return a)
  have k: "steady (k a) (file_of (m f))" by (rule assms(2))
  show ?thesis
    using assms(1) k Return
    by (auto simp add: steady_def events_of_bnd file_of_bnd intro: order_trans)
qed (use assms(1) in \<open>auto simp add: steady_def events_of_bnd file_of_bnd\<close>)

lemma steady_bnd_quiet:
  assumes "quiet m" and "\<And>a. outcome_of (m f) = Return a \<Longrightarrow> steady (k a) f"
  shows "steady (bnd m k) f"
proof (cases "outcome_of (m f)")
  case (Return a)
  have same: "file_of (m f) = f" using assms(1) by (simp add: quiet_def)
  show ?thesis
    using quiet_steady [OF assms(1), of f] assms(2) [OF Return] Return same
    by (auto simp add: steady_def events_of_bnd file_of_bnd)
qed (use quiet_steady [OF assms(1), of f] in \<open>auto simp add: steady_def events_of_bnd file_of_bnd\<close>)

lemma steady_andthen: "steady m f \<Longrightarrow> (\<And>f'. steady k f') \<Longrightarrow> steady (andthen m k) f"
  by (simp add: andthen_def steady_bnd)

lemma steady_andthen_quiet: "quiet m \<Longrightarrow> steady k f \<Longrightarrow> steady (andthen m k) f"
  by (simp add: andthen_def steady_bnd_quiet)

lemma steady_for_each: "(\<And>x f'. steady (body x) f') \<Longrightarrow> steady (for_each body xs) f"
  by (induction xs arbitrary: f) (simp_all add: quiet_steady quiet_ret steady_andthen)

lemma steady_dump_database:
  assumes "\<not> force_update env" and "outcome_of (read_init_status env f) = Return s"
    and "status_rank (recorded_status f d) \<le> status_rank (Some st)"
  shows "steady (dump_init_status (s\<lparr>dbs_initialized := (dbs_initialized s)(d \<mapsto> st)\<rparr>)) f"
  using assms(3) read_Return_recorded [OF assms(1,2)]
  by (auto simp add: steady_def forward_write_def dump_init_status_def recorded_status_def)

lemma steady_update_database:
  assumes "\<not> force_update env"
    and "status_rank (recorded_status f d) \<le> status_rank (Some st)"
  shows "steady (update_database_init_status env d st) f"
  unfolding update_database_init_status_def
  by (rule steady_bnd_quiet [OF quiet_read_init_status])
     (rule steady_dump_database [OF assms(1) _ assms(2)])

lemma steady_update_default:
  assumes "\<not> force_update env"
  shows "steady (update_default_db_init_status env b) f"
  unfolding update_default_db_init_status_def
proof (rule steady_bnd_quiet [OF quiet_read_init_status])
  fix s assume r: "outcome_of (read_init_status env f) = Return s"
  show "steady (dump_init_status (s\<lparr>default_db_initialized := b\<rparr>)) f"
    using read_Return_recorded [OF assms r]
    by (auto simp add: steady_def forward_write_def dump_init_status_def recorded_status_def)
qed

lemma status_rank_le_subscribed: "status_rank s \<le> status_rank (Some SUBSCRIBED)"
  by (cases s rule: status_rank.cases) simp_all

lemma steady_andthen_update_database:
  assumes "\<not> force_update env"
    and "status_rank (recorded_status f d) \<le> status_rank (Some st)"
    and "\<And>f'. steady k f'"
  shows "steady (andthen (update_database_init_status env d st) k) f"
  by (rule steady_andthen [OF steady_update_database [OF assms(1,2)] assms(3)])

lemma steady_andthen_last:
  assumes "steady p f"
  shows "steady (andthen p (ret ())) f"
  by (rule steady_andthen [OF assms]) (rule quiet_steady [OF quiet_ret])

lemmas steady_basics = quiet_basics [THEN quiet_steady]

lemma steady_init_database:
  assumes nf: "\<not> force_update env"
  shows "steady (init_database env w db_info) f"
  unfolding init_database_def
  apply (rule steady_bnd_quiet [OF quiet_read_init_status])
  subgoal premises r for s
  proof (cases "dbs_initialized s (database_name db_info)")
    case None
    then have absent: "recorded_status f (database_name db_info) = None"
      using read_Return_recorded [OF nf r] by simp
    show ?thesis
      apply (simp only: Let_def None simp_thms if_False block.simps)
      apply (intro steady_andthen_update_database steady_andthen_last steady_andthen_quiet
            steady_basics quiet_andthen quiet_if quiet_basics nf)
      apply (simp add: absent)
      done
  next
    case (Some st)
    show ?thesis
      apply (simp only: Let_def Some option.simps simp_thms if_True)
      apply (rule quiet_steady [OF quiet_info])
      done
  qed
  done

lemma steady_spock_node_step:
  assumes nf: "\<not> force_update env"
  shows "steady (spock_node_step env w schemas db_info) f"
  unfolding spock_node_step_def
  apply (rule steady_bnd_quiet [OF quiet_read_init_status])
  subgoal premises r for s
  proof (cases "dbs_initialized s (database_name db_info)")
    case None
    show ?thesis
      apply (simp only: Let_def None simp_thms if_True)
      apply (intro quiet_steady quiet_andthen quiet_basics)
      done
  next
    case (Some st)
    then have rec: "recorded_status f (database_name db_info) = Some st"
      using read_Return_recorded [OF nf r] by simp
    show ?thesis
    proof (cases "st = CREATED")
      case True
      show ?thesis
        apply (simp only: Let_def Some True option.simps simp_thms if_False if_True block.simps)
        apply (intro steady_andthen_update_database steady_andthen_last steady_andthen_quiet
            steady_basics quiet_andthen quiet_basics quiet_init_spock_node nf)
        apply (simp add: rec True)
        done
    next
      case False
      show ?thesis
        apply (simp only: Let_def Some False option.simps simp_thms if_False)
        apply (rule quiet_steady [OF quiet_info])
        done
    qed
  qed
  done

lemma steady_peer_subscription_step:
  assumes nf: "\<not> force_update env"
  shows "steady (peer_subscription_step env w db_info) f"
  unfolding peer_subscription_step_def
  apply (rule steady_bnd_quiet [OF quiet_read_init_status])
  subgoal premises r for s
  proof (cases "dbs_initialized s (database_name db_info) = Some SUBSCRIBED")
    case True
    show ?thesis
      apply (simp only: Let_def True simp_thms if_True)
      apply (rule quiet_steady [OF quiet_info])
      done
  next
    case False
    have upd: "steady (update_database_init_status env (database_name db_info) SUBSCRIBED) f"
      by (rule steady_update_database [OF nf status_rank_le_subscribed])
    have k: "steady (if subscribed then
                    andthen
                      (update_database_init_status env (database_name db_info) SUBSCRIBED)
                      (info (''database '' @ database_name db_info @ '' subscribed to peers''))
                  else
                    info (''No need to subscribe to peers for '' @ database_name db_info
                          @ '', skipping'')) f" for subscribed
    proof (cases subscribed)
      case True
      have "steady (andthen
                      (update_database_init_status env (database_name db_info) SUBSCRIBED)
                      (info (''database '' @ database_name db_info @ '' subscribed to peers''))) f"
        by (rule steady_andthen [OF upd]) (rule quiet_steady [OF quiet_info])
      then show ?thesis using True by simp
    next
      case False
      then show ?thesis by (simp add: quiet_steady quiet_info)
    qed
    show ?thesis
      apply (simp only: Let_def False if_False)
      apply (rule steady_andthen_quiet [OF quiet_info])
      apply (rule steady_bnd_quiet [OF quiet_init_peer_spock_subscriptions])
      apply (rule k)
      done
  qed
  done

lemma steady_init_default_database:
  assumes nf: "\<not> force_update env"
  shows "steady (init_default_database env w db_info) f"
  unfolding init_default_database_def
  apply (rule steady_bnd_quiet [OF quiet_read_init_status])
  subgoal premises r for s
  proof (cases "default_db_initialized s")
    case True
    show ?thesis
      apply (simp only: Let_def True if_True)
      apply (rule quiet_steady [OF quiet_info])
      done
  next
    case False
    have k: "steady (if \<not> subscribed then
                   info (''No need to subscribe to peers for '' @ database_name db_info @ '', skipping'')
                 else
                   andthen
                     (info (''default database initialized ('' @ node_name db_info @ '')''))
                     (update_default_db_init_status env True)) f" for subscribed
      by (cases subscribed)
         (simp_all add: steady_andthen_quiet steady_update_default nf quiet_steady quiet_info)
    have q: "quiet (case get_superuser_roles env of Inl e \<Rightarrow> raise e
                    | Inr roles \<Rightarrow> execute_all w d (g roles))" for d g
      by (cases "get_superuser_roles env") (simp_all add: quiet_basics)
    show ?thesis
      apply (simp only: Let_def False if_False block.simps)
      apply (intro steady_andthen_last steady_andthen_quiet quiet_andthen quiet_if quiet_basics
          quiet_init_spock_node q)
      apply (rule steady_bnd_quiet [OF quiet_init_peer_spock_subscriptions])
      apply (rule k)
      done
  qed
  done

lemma steady_init_other_databases:
  assumes nf: "\<not> force_update env"
  shows "steady (init_other_databases env w dbs_info) f"
proof -
  have tail: "steady (andthen
       (if dbs_info = [] then raise (UnboundLocalError ''db_info'')
        else info (''cluster node initialized ('' @ node_name (last dbs_info) @ '')'')) (ret ())) f'" for f'
    by (intro quiet_steady quiet_andthen quiet_if quiet_basics)
  show ?thesis
    unfolding init_other_databases_def block.simps
    by (intro steady_andthen steady_for_each steady_init_database steady_spock_node_step
          steady_peer_subscription_step nf tail)
qed

lemma steady_main:
  assumes nf: "\<not> force_update env"
  shows "steady (main env w default_db_info dbs_info) f"
proof (cases "mode default_db_info = Some ''offline''")
  case True
  then show ?thesis
    by (simp add: main_def quiet_steady quiet_andthen quiet_basics)
next
  case False
  have boot: "steady (let initialized = (\<not> can_connect w (init_dsn default_db_info)
                              \<and> can_connect w (local_dsn default_db_info))
           in if initialized then
                info ''database node already initialized, skipping initialization.''
              else
                andthen (info ''initializing database node...'')
                  (init_default_database env w default_db_info)) f'" for f'
    unfolding Let_def
    by (cases "\<not> can_connect w (init_dsn default_db_info) \<and> can_connect w (local_dsn default_db_info)")
       (simp_all add: quiet_steady quiet_info steady_andthen_quiet steady_init_default_database nf)
  have rest: "steady (andthen (init_other_databases env w dbs_info) (ret ())) f'" for f'
    by (intro steady_andthen steady_init_other_databases nf quiet_steady quiet_ret)
  show ?thesis
    using False
    apply (simp only: main_def if_False block.simps)
    apply (rule steady_andthen_quiet [OF quiet_sleep])
    apply (rule steady_andthen [OF boot rest])
    done
qed

lemma read_init_status_events:
  "events_of (read_init_status env f) =
     (if force_update env then [Info ''WARNING: FORCE_INIT is set, forcing init status update'']
      else [])"
  by (cases "force_update env") (simp_all add: read_init_status_forced read_unforced_events)

lemma read_init_status_Return:
  assumes "outcome_of (read_init_status env f) = Return s"
  shows "read_init_status env f = (Return s, events_of (read_init_status env f), f)"
  using read_init_status_result [of env f] assms by simp

lemma read_init_status_loads:
  assumes "f \<noteq> Undecodable" and "f \<noteq> Overnested"
  shows "\<exists>s. outcome_of (read_init_status env f) = Return s"
  using assms
  by (cases "force_update env"; cases f)
     (simp_all add: read_init_status_forced read_init_status_unforced)

lemma dump_init_status_result:
  "dump_init_status s f = (Return (), [WriteFile f (Stored s)], Stored s)"
  by (simp add: dump_init_status_def)

lemma update_database_init_status_Return:
  assumes "outcome_of (read_init_status env f) = Return s"
  shows "update_database_init_status env d st f =
     (Return (),
      events_of (read_init_status env f)
        @ [WriteFile f (Stored (s\<lparr>dbs_initialized := (dbs_initialized s)(d \<mapsto> st)\<rparr>))],
      Stored (s\<lparr>dbs_initialized := (dbs_initialized s)(d \<mapsto> st)\<rparr>))"
  by (simp add: update_database_init_status_def
        bnd_Return [where m = "read_init_status env", OF read_init_status_Return [OF assms]]
        dump_init_status_result)

lemma update_default_db_init_status_Return:
  assumes "outcome_of (read_init_status env f) = Return s"
  shows "update_default_db_init_status env b f =
     (Return (),
      events_of (read_init_status env f)
        @ [WriteFile f (Stored (s\<lparr>default_db_initialized := b\<rparr>))],
      Stored (s\<lparr>default_db_initialized := b\<rparr>))"
  by (simp add: update_default_db_init_status_def
        bnd_Return [where m = "read_init_status env", OF read_init_status_Return [OF assms]]
        dump_init_status_result)

lemma update_unloadable:
  assumes "\<not> force_update env" and "f = Undecodable \<or> f = Overnested"
  shows "file_of (update_database_init_status env d st f) = f
       \<and> events_of (update_database_init_status env d st f) = []
       \<and> file_of (update_default_db_init_status env b f) = f
       \<and> events_of (update_default_db_init_status env b f) = []"
proof -
  have "read_init_status env f = (Raised UnicodeDecodeError, [], f)
      \<or> read_init_status env f = (Raised RecursionError, [], f)"
    using assms by (auto simp add: read_init_status_unforced)
  then show ?thesis
    by (auto simp add: update_database_init_status_def update_default_db_init_status_def
          bnd_Raised [where m = "read_init_status env"])
qed

subsection \<open>The progress store\<close>

text \<open>
  C8 holds for the file that is missing and for the text that \<open>json.load\<close> rejects with
  \<open>JSONDecodeError\<close>: both read as the empty record. It fails for the other files that
  are not parseable JSON. The comment in \<open>read_init_status\<close> says that a file that is not
  valid JSON gives the empty record, but the \<open>except\<close> clause names \<open>JSONDecodeError\<close>
  only: a file whose bytes do not decode raises \<open>UnicodeDecodeError\<close>, a file nested too
  deep raises \<open>RecursionError\<close>, nothing catches either, and a run that reads such a file
  ends with exit code 1.
\<close>

theorem read_init_status_undecodable_raises:
  "\<not> force_update sample_env
   \<and> read_init_status sample_env Missing
       = (Return \<lparr>default_db_initialized = False, dbs_initialized = Map.empty\<rparr>, [], Missing)
   \<and> read_init_status sample_env Unparseable
       = (Return \<lparr>default_db_initialized = False, dbs_initialized = Map.empty\<rparr>, [], Unparseable)
   \<and> read_init_status sample_env Undecodable = (Raised UnicodeDecodeError, [], Undecodable)
   \<and> read_init_status sample_env Overnested = (Raised RecursionError, [], Overnested)
   \<and> exit_code (outcome_of (main sample_env restart_world (sample_db ''main'' [n1, n2])
        [sample_db ''d'' [n1, n2]] Undecodable)) = Some 1"
proof -
  have h: "\<not> force_update sample_env"
    by code_simp
  have e: "exit_code (outcome_of (main sample_env restart_world (sample_db ''main'' [n1, n2])
        [sample_db ''d'' [n1, n2]] Undecodable)) = Some 1"
    by code_simp
  show ?thesis
    using h e by (simp add: read_init_status_unforced empty_status_def)
qed

text \<open>
  C10. When the force flag is not set, an update of one entry keeps the rest of the
  store: \<open>update_database_init_status\<close> for a database leaves the flag of the primary
  database and the status of every other database as they were, and
  \<open>update_default_db_init_status\<close> leaves every status as it was. When the file loads, the
  first records the new status of the database and the second records the flag; when it
  does not load, the read inside the update raises and the file is not written.
\<close>

theorem update_preserves_other_entries:
  assumes "\<not> force_update env"
  shows "(f \<noteq> Undecodable \<and> f \<noteq> Overnested \<longrightarrow>
            recorded_status (file_of (update_database_init_status env d st f)) d = Some st
            \<and> recorded_default (file_of (update_default_db_init_status env b f)) = b)
       \<and> recorded_default (file_of (update_database_init_status env d st f)) = recorded_default f
       \<and> (\<forall>d'. d' \<noteq> d \<longrightarrow>
            recorded_status (file_of (update_database_init_status env d st f)) d'
              = recorded_status f d')
       \<and> (\<forall>d'. recorded_status (file_of (update_default_db_init_status env b f)) d'
              = recorded_status f d')
       \<and> (f = Undecodable \<or> f = Overnested \<longrightarrow>
            file_of (update_database_init_status env d st f) = f
            \<and> events_of (update_database_init_status env d st f) = []
            \<and> file_of (update_default_db_init_status env b f) = f
            \<and> events_of (update_default_db_init_status env b f) = [])"
proof (cases "f = Undecodable \<or> f = Overnested")
  case True
  note u = update_unloadable [OF assms True]
  from True have n: "recorded_status f d' = None" for d'
    by (auto simp add: recorded_status_def)
  show ?thesis
    using True u [of d st] u [of _ _ b] by (auto simp add: n)
next
  case False
  then obtain s where r: "outcome_of (read_init_status env f) = Return s"
    using read_init_status_loads [of f env] by blast
  note rec = read_Return_recorded [OF assms r]
  show ?thesis
    using False rec
    by (simp add: update_database_init_status_Return [OF r]
          update_default_db_init_status_Return [OF r] recorded_status_def recorded_default_def)
qed

theorem update_preserves_other_entries_witness:
  "\<not> force_update \<lparr>FORCE_INIT = None, PGV = Some ''16''\<rparr>
   \<and> recorded_status
        (file_of (update_database_init_status \<lparr>FORCE_INIT = None, PGV = Some ''16''\<rparr> ''b'' INITED
           (Stored \<lparr>default_db_initialized = True, dbs_initialized = [''a'' \<mapsto> SUBSCRIBED]\<rparr>)))
        ''a'' = Some SUBSCRIBED
   \<and> recorded_status
        (file_of (update_database_init_status \<lparr>FORCE_INIT = None, PGV = Some ''16''\<rparr> ''b'' INITED
           (Stored \<lparr>default_db_initialized = True, dbs_initialized = [''a'' \<mapsto> SUBSCRIBED]\<rparr>)))
        ''b'' = Some INITED
   \<and> recorded_default
        (file_of (update_database_init_status \<lparr>FORCE_INIT = None, PGV = Some ''16''\<rparr> ''b'' INITED
           (Stored \<lparr>default_db_initialized = True, dbs_initialized = [''a'' \<mapsto> SUBSCRIBED]\<rparr>)))
   \<and> file_of (update_database_init_status \<lparr>FORCE_INIT = None, PGV = Some ''16''\<rparr> ''b'' INITED
        Undecodable) = Undecodable
   \<and> events_of (update_database_init_status \<lparr>FORCE_INIT = None, PGV = Some ''16''\<rparr> ''b'' INITED
        Undecodable) = []"
proof -
  have h: "\<not> force_update \<lparr>FORCE_INIT = None, PGV = Some ''16''\<rparr>"
    by (simp add: force_update_def getenv_default_def lower_def char_lower_def)
  show ?thesis
    using h update_preserves_other_entries [OF h, of
        "Stored \<lparr>default_db_initialized = True, dbs_initialized = [''a'' \<mapsto> SUBSCRIBED]\<rparr>"
        "''b''" INITED]
      update_preserves_other_entries [OF h, of Undecodable "''b''" INITED]
    by (simp add: recorded_status_def recorded_default_def)
qed

subsection \<open>The main procedure\<close>

lemma main_online:
  assumes "mode default_db_info \<noteq> Some ''offline''"
  shows "main env w default_db_info dbs_info =
     andthen (sleep 3)
       (andthen
          (if \<not> can_connect w (init_dsn default_db_info) \<and> can_connect w (local_dsn default_db_info)
           then info ''database node already initialized, skipping initialization.''
           else andthen (info ''initializing database node...'')
                  (init_default_database env w default_db_info))
          (init_other_databases env w dbs_info))"
  using assms by (simp add: main_def Let_def andthen_ret_right)

text \<open>
  C2. In a run without the force flag, the recorded status of every database only moves
  forward in the order absent, created, inited, subscribed: every write of the progress
  file during the run leaves each database with a status at least as high as the one
  the file held just before the write, and so does the run as a whole.
\<close>

theorem status_only_moves_forward:
  assumes "\<not> force_update env"
  shows "(\<forall>old new. WriteFile old new \<in> set (events_of (main env w default_db_info dbs_info f))
            \<longrightarrow> status_rank (recorded_status old d) \<le> status_rank (recorded_status new d))
       \<and> status_rank (recorded_status f d)
           \<le> status_rank (recorded_status (file_of (main env w default_db_info dbs_info f)) d)"
proof -
  have s: "steady (main env w default_db_info dbs_info) f"
    by (rule steady_main [OF assms])
  have "status_rank (recorded_status old d) \<le> status_rank (recorded_status new d)"
    if "WriteFile old new \<in> set (events_of (main env w default_db_info dbs_info f))" for old new
  proof -
    have "forward_write (WriteFile old new)"
      using s that by (simp add: steady_def)
    then show ?thesis by (simp add: forward_write_def)
  qed
  moreover have "status_rank (recorded_status f d)
      \<le> status_rank (recorded_status (file_of (main env w default_db_info dbs_info f)) d)"
    using s by (simp add: steady_def)
  ultimately show ?thesis by blast
qed

theorem status_only_moves_forward_witness:
  "\<not> force_update sample_env
   \<and> recorded_status
        (Stored \<lparr>default_db_initialized = True, dbs_initialized = [''d'' \<mapsto> CREATED]\<rparr>) ''d''
       = Some CREATED
   \<and> recorded_status
        (file_of (main sample_env restart_world (sample_db ''main'' [n1, n2])
           [sample_db ''d'' [n1, n2]]
           (Stored \<lparr>default_db_initialized = True, dbs_initialized = [''d'' \<mapsto> CREATED]\<rparr>)))
        ''d''
       = Some SUBSCRIBED
   \<and> status_rank (recorded_status
        (Stored \<lparr>default_db_initialized = True, dbs_initialized = [''d'' \<mapsto> CREATED]\<rparr>) ''d'')
       \<le> status_rank (recorded_status
        (file_of (main sample_env restart_world (sample_db ''main'' [n1, n2])
           [sample_db ''d'' [n1, n2]]
           (Stored \<lparr>default_db_initialized = True, dbs_initialized = [''d'' \<mapsto> CREATED]\<rparr>)))
        ''d'')"
proof -
  have h: "\<not> force_update sample_env"
    by code_simp
  have e: "recorded_status
        (file_of (main sample_env restart_world (sample_db ''main'' [n1, n2])
           [sample_db ''d'' [n1, n2]]
           (Stored \<lparr>default_db_initialized = True, dbs_initialized = [''d'' \<mapsto> CREATED]\<rparr>)))
        ''d''
       = Some SUBSCRIBED"
    by code_simp
  show ?thesis
    using h e status_only_moves_forward [OF h, where w = restart_world
        and default_db_info = "sample_db ''main'' [n1, n2]"
        and dbs_info = "[sample_db ''d'' [n1, n2]]"
        and f = "Stored \<lparr>default_db_initialized = True, dbs_initialized = [''d'' \<mapsto> CREATED]\<rparr>"
        and d = "''d''"]
    by (simp add: recorded_status_def)
qed

text \<open>
  C1, as the script has it. In online mode the bootstrap of the primary database
  (\<open>init_default_database\<close>) is entered unless the probes show a node that is already
  bootstrapped, that is unless the seed connection is unreachable and the admin
  connection is reachable: it is entered exactly when the seed connection is reachable or
  the admin connection is not. Otherwise the run logs that the node is initialized and
  goes straight to the additional databases.
\<close>

theorem bootstrap_entered_unless_seed_gone_and_admin_up:
  assumes "mode default_db_info \<noteq> Some ''offline''"
  shows "events_of (main env w default_db_info dbs_info f) =
     (if can_connect w (init_dsn default_db_info) \<or> \<not> can_connect w (local_dsn default_db_info)
      then [Sleep 3, Info ''initializing database node...'']
           @ events_of (andthen (init_default_database env w default_db_info)
                          (init_other_databases env w dbs_info) f)
      else [Sleep 3, Info ''database node already initialized, skipping initialization.'']
           @ events_of (init_other_databases env w dbs_info f))"
  by (simp add: main_online [OF assms] andthen_sleep andthen_info andthen_assoc)

theorem bootstrap_entered_unless_seed_gone_and_admin_up_witness:
  "mode (sample_db ''main'' [n1, n2]) \<noteq> Some ''offline''
   \<and> take 2 (events_of (main sample_env fresh_world (sample_db ''main'' [n1, n2]) [] Missing))
       = [Sleep 3, Info ''initializing database node...'']
   \<and> take 2 (events_of (main sample_env restart_world (sample_db ''main'' [n1, n2]) [] Missing))
       = [Sleep 3, Info ''database node already initialized, skipping initialization.'']"
proof -
  have h: "mode (sample_db ''main'' [n1, n2]) \<noteq> Some ''offline''"
    by (simp add: sample_db_def)
  have r: "can_connect restart_world (local_dsn (sample_db ''main'' [n1, n2]))"
          "\<not> can_connect restart_world (init_dsn (sample_db ''main'' [n1, n2]))"
          "\<not> can_connect fresh_world (local_dsn (sample_db ''main'' [n1, n2]))"
    by code_simp+
  show ?thesis
    using h r
      bootstrap_entered_unless_seed_gone_and_admin_up [OF h, where w = fresh_world
        and env = sample_env and dbs_info = "[]" and f = Missing]
      bootstrap_entered_unless_seed_gone_and_admin_up [OF h, where w = restart_world
        and env = sample_env and dbs_info = "[]" and f = Missing]
    by simp
qed

text \<open>
  C1 as stated fails: with the seed connection unreachable (and the admin connection
  unreachable too) the phase is not skipped. Here neither probe answers, the seed comes
  up while \<open>connect\<close> retries, and the run sends the first statement of the bootstrap.
\<close>

theorem bootstrap_runs_with_seed_unreachable:
  "mode (sample_db ''main'' [n1, n2]) \<noteq> Some ''offline''
   \<and> \<not> can_connect fresh_world (init_dsn (sample_db ''main'' [n1, n2]))
   \<and> (init_dsn (sample_db ''main'' [n1, n2]), ''CREATE ROLE pgedge_superuser WITH NOLOGIN;'')
       \<in> set (executed (events_of
           (main sample_env fresh_world (sample_db ''main'' [n1, n2]) [] Missing)))"
  by code_simp

lemma spock_node_step_absent:
  assumes "outcome_of (read_init_status env f) = Return s"
    and "dbs_initialized s (database_name db_info) = None"
  shows "spock_node_step env w schemas db_info f =
     (Exit 1,
      events_of (read_init_status env f)
        @ [Info (''database '' @ database_name db_info
                 @ '' not initialized, something went wrong! Please restart the node.'')],
      f)"
  using assms(2)
  by (simp add: spock_node_step_def Let_def andthen_info
        bnd_Return [where m = "read_init_status env", OF read_init_status_Return [OF assms(1)]])

lemma read_without_entry:
  "(\<exists>s. outcome_of (read_init_status env f) = Return s \<and> dbs_initialized s d = None)
     \<longleftrightarrow> force_update env
          \<or> (recorded_status f d = None \<and> f \<noteq> Undecodable \<and> f \<noteq> Overnested)"
  by (cases "force_update env"; cases f)
     (simp_all add: read_init_status_forced read_init_status_unforced recorded_status_def
        empty_status_def)

text \<open>
  C7. When the loop that initializes the replication nodes comes to an additional
  database and the progress record it reads has no entry for that database (the file
  loads and has no record of it, or the force flag hides the record), the process logs
  the inconsistency and exits with code 1. It does not continue: nothing further runs for
  this database or for those after it, and whatever would follow the loop is not run
  either.
\<close>

theorem spock_node_loop_exits_without_record:
  assumes "for_each (spock_node_step env w schemas) pre f = (Return (), t, f')"
    and "outcome_of (read_init_status env f') = Return s"
    and "dbs_initialized s (database_name db_info) = None"
  shows "for_each (spock_node_step env w schemas) (pre @ db_info # rest) f =
     (Exit 1,
      t @ events_of (read_init_status env f')
        @ [Info (''database '' @ database_name db_info
                 @ '' not initialized, something went wrong! Please restart the node.'')],
      f')
   \<and> andthen (for_each (spock_node_step env w schemas) (pre @ db_info # rest)) after f =
     (Exit 1,
      t @ events_of (read_init_status env f')
        @ [Info (''database '' @ database_name db_info
                 @ '' not initialized, something went wrong! Please restart the node.'')],
      f')
   \<and> exit_code (outcome_of (for_each (spock_node_step env w schemas) (pre @ db_info # rest) f))
       = Some 1"
proof -
  have step: "andthen (spock_node_step env w schemas db_info)
                (for_each (spock_node_step env w schemas) rest) f' =
     (Exit 1,
      events_of (read_init_status env f')
        @ [Info (''database '' @ database_name db_info
                 @ '' not initialized, something went wrong! Please restart the node.'')],
      f')"
    using spock_node_step_absent [OF assms(2,3), of w schemas]
    by (simp add: andthen_Exit)
  have loop: "for_each (spock_node_step env w schemas) (pre @ db_info # rest) f =
     (Exit 1,
      t @ events_of (read_init_status env f')
        @ [Info (''database '' @ database_name db_info
                 @ '' not initialized, something went wrong! Please restart the node.'')],
      f')"
    by (simp add: for_each_append step
          andthen_Return [where m = "for_each (spock_node_step env w schemas) pre", OF assms(1)])
  have "andthen (for_each (spock_node_step env w schemas) (pre @ db_info # rest)) after f =
     (Exit 1,
      t @ events_of (read_init_status env f')
        @ [Info (''database '' @ database_name db_info
                 @ '' not initialized, something went wrong! Please restart the node.'')],
      f')"
    by (rule andthen_Exit
          [where m = "for_each (spock_node_step env w schemas) (pre @ db_info # rest)", OF loop])
  with loop show ?thesis by simp
qed

theorem spock_node_loop_exits_without_record_witness:
  "for_each (spock_node_step forced_env restart_world default_schemas) [] Missing
     = (Return (), [], Missing)
   \<and> outcome_of (read_init_status forced_env Missing) = Return empty_status
   \<and> dbs_initialized empty_status (database_name (sample_db ''d'' [n1, n2])) = None
   \<and> exit_code (outcome_of (for_each (spock_node_step forced_env restart_world default_schemas)
        ([] @ sample_db ''d'' [n1, n2] # []) Missing)) = Some 1
   \<and> exit_code (outcome_of (main forced_env restart_world (sample_db ''main'' [n1, n2])
        [sample_db ''d'' [n1, n2]] Missing)) = Some 1"
proof -
  have a: "for_each (spock_node_step forced_env restart_world default_schemas) [] Missing
     = (Return (), [], Missing)"
    by simp
  have fo: "force_update forced_env"
    by code_simp
  have r: "outcome_of (read_init_status forced_env Missing) = Return empty_status"
    by (simp add: read_init_status_forced [OF fo])
  have b: "dbs_initialized empty_status (database_name (sample_db ''d'' [n1, n2])) = None"
    by (simp add: empty_status_def)
  have c: "exit_code (outcome_of (main forced_env restart_world (sample_db ''main'' [n1, n2])
        [sample_db ''d'' [n1, n2]] Missing)) = Some 1"
    by code_simp
  show ?thesis
    using a r b c spock_node_loop_exits_without_record [OF a r b, where rest = "[]"
        and after = "ret ()"]
    by simp
qed

lemma init_peer_spock_subscriptions_no_peers:
  assumes "filter (\<lambda>node. node_spec_id node \<noteq> node_id db_info) (nodes db_info) = []"
  shows "init_peer_spock_subscriptions w db_info drop_existing f =
     (Return False,
      [Info (''no peers found for database '' @ database_name db_info
             @ '', skipping peer spock subscriptions'')],
      f)"
  using assms
  by (simp add: init_peer_spock_subscriptions_def Let_def andthen_info)

text \<open>
  C4. For a database whose list of peers (the configured nodes other than this one) is
  empty, \<open>init_peer_spock_subscriptions\<close> only logs and returns \<open>False\<close>: it opens no
  connection and sends no statement. The caller, the subscription loop of \<open>main\<close>, then
  leaves the progress file as it was and writes nothing, so the status of the database
  stays what it was: a database at \<open>inited\<close> remains at \<open>inited\<close>. The caller returns
  whenever its read of the progress file does.
\<close>

theorem no_peers_no_subscribed_status:
  assumes "filter (\<lambda>node. node_spec_id node \<noteq> node_id db_info) (nodes db_info) = []"
  shows "init_peer_spock_subscriptions w db_info drop_existing f =
     (Return False,
      [Info (''no peers found for database '' @ database_name db_info
             @ '', skipping peer spock subscriptions'')],
      f)
   \<and> (\<forall>s. outcome_of (read_init_status env f) = Return s \<longrightarrow>
         outcome_of (peer_subscription_step env w db_info f) = Return ())
   \<and> file_of (peer_subscription_step env w db_info f) = f
   \<and> executed (events_of (peer_subscription_step env w db_info f)) = []
   \<and> (\<forall>old new. WriteFile old new \<notin> set (events_of (peer_subscription_step env w db_info f)))"
proof -
  note p = init_peer_spock_subscriptions_no_peers [OF assms]
  have ev: "executed (events_of (read_init_status env f)) = []"
      "WriteFile old new \<notin> set (events_of (read_init_status env f))" for old new
    by (simp_all add: read_init_status_events)
  have returns: "peer_subscription_step env w db_info f =
          (Return (),
           events_of (read_init_status env f)
           @ (if dbs_initialized s (database_name db_info) = Some SUBSCRIBED
              then [Info (''database '' @ database_name db_info @ '' already subscribed to peers, skipping'')]
              else [Info (''database '' @ database_name db_info @ '' not subscribed to peers, subscribing''),
                    Info (''no peers found for database '' @ database_name db_info
                          @ '', skipping peer spock subscriptions''),
                    Info (''No need to subscribe to peers for '' @ database_name db_info @ '', skipping'')]),
           f)"
    if r: "outcome_of (read_init_status env f) = Return s" for s
    by (simp add: peer_subscription_step_def Let_def andthen_info
          bnd_Return [where m = "read_init_status env", OF read_init_status_Return [OF r]]
          bnd_Return [OF p])
  have raises: "peer_subscription_step env w db_info f =
      (Raised e, events_of (read_init_status env f), f)"
    if r: "outcome_of (read_init_status env f) = Raised e" for e
  proof -
    have "read_init_status env f = (Raised e, events_of (read_init_status env f), f)"
      using read_init_status_result [of env f] r by simp
    then show ?thesis
      by (simp add: peer_subscription_step_def bnd_Raised [where m = "read_init_status env"])
  qed
  have shape: "(\<exists>s. outcome_of (read_init_status env f) = Return s)
      \<or> (\<exists>e. outcome_of (read_init_status env f) = Raised e)"
    by (cases "force_update env"; cases f)
       (simp_all add: read_init_status_forced read_init_status_unforced)
  have rest: "file_of (peer_subscription_step env w db_info f) = f
      \<and> executed (events_of (peer_subscription_step env w db_info f)) = []
      \<and> (\<forall>old new. WriteFile old new \<notin> set (events_of (peer_subscription_step env w db_info f)))"
    using shape
  proof
    assume "\<exists>s. outcome_of (read_init_status env f) = Return s"
    then obtain s where r: "outcome_of (read_init_status env f) = Return s" by blast
    show ?thesis
      by (simp add: returns [OF r] read_init_status_events)
  next
    assume "\<exists>e. outcome_of (read_init_status env f) = Raised e"
    then obtain e where r: "outcome_of (read_init_status env f) = Raised e" by blast
    show ?thesis
      by (simp add: raises [OF r] read_init_status_events)
  qed
  have out: "outcome_of (peer_subscription_step env w db_info f) = Return ()"
    if "outcome_of (read_init_status env f) = Return s" for s
    by (simp add: returns [OF that])
  show ?thesis
    using p rest out by blast
qed

theorem no_peers_no_subscribed_status_witness:
  "filter (\<lambda>node. node_spec_id node \<noteq> node_id (sample_db ''d'' [n1])) (nodes (sample_db ''d'' [n1])) = []
   \<and> outcome_of (read_init_status sample_env
          (Stored \<lparr>default_db_initialized = True, dbs_initialized = [''d'' \<mapsto> INITED]\<rparr>))
       = Return \<lparr>default_db_initialized = True, dbs_initialized = [''d'' \<mapsto> INITED]\<rparr>
   \<and> recorded_status
        (file_of (peer_subscription_step sample_env restart_world (sample_db ''d'' [n1])
          (Stored \<lparr>default_db_initialized = True, dbs_initialized = [''d'' \<mapsto> INITED]\<rparr>))) ''d''
       = Some INITED
   \<and> outcome_of (peer_subscription_step sample_env restart_world (sample_db ''d'' [n1])
          (Stored \<lparr>default_db_initialized = True, dbs_initialized = [''d'' \<mapsto> INITED]\<rparr>))
       = Return ()"
proof -
  have h: "filter (\<lambda>node. node_spec_id node \<noteq> node_id (sample_db ''d'' [n1]))
             (nodes (sample_db ''d'' [n1])) = []"
    by (simp add: sample_db_def n1_def)
  have nf: "\<not> force_update sample_env"
    by code_simp
  have r: "outcome_of (read_init_status sample_env
          (Stored \<lparr>default_db_initialized = True, dbs_initialized = [''d'' \<mapsto> INITED]\<rparr>))
      = Return \<lparr>default_db_initialized = True, dbs_initialized = [''d'' \<mapsto> INITED]\<rparr>"
    by (simp add: read_init_status_unforced [OF nf])
  show ?thesis
    using h r no_peers_no_subscribed_status [OF h, where env = sample_env and w = restart_world
        and f = "Stored \<lparr>default_db_initialized = True, dbs_initialized = [''d'' \<mapsto> INITED]\<rparr>"]
    by (simp add: recorded_status_def)
qed

subsection \<open>The force flag\<close>

text \<open>
  C5, as the script has it. With the force flag set every read returns the empty record,
  whatever the file holds, after a warning in the log and without opening the file. The
  writes of the run start from that empty record too: a status write replaces the content
  of the file by the empty record with the one entry written, and a write of the flag by
  the empty record with that flag, so what the file recorded before is not kept.
\<close>

theorem forced_run_reads_empty_and_writes_afresh:
  assumes "force_update env"
  shows "read_init_status env f =
           (Return empty_status, [Info ''WARNING: FORCE_INIT is set, forcing init status update''], f)
       \<and> file_of (update_database_init_status env d st f)
           = Stored \<lparr>default_db_initialized = False, dbs_initialized = [d \<mapsto> st]\<rparr>
       \<and> file_of (update_default_db_init_status env b f)
           = Stored \<lparr>default_db_initialized = b, dbs_initialized = Map.empty\<rparr>"
proof -
  note r = read_init_status_forced [OF assms, of f]
  then have o: "outcome_of (read_init_status env f) = Return empty_status" by simp
  show ?thesis
    by (simp add: r update_database_init_status_Return [OF o]
          update_default_db_init_status_Return [OF o] empty_status_def)
qed

theorem forced_run_reads_empty_and_writes_afresh_witness:
  "force_update forced_env
   \<and> outcome_of (read_init_status forced_env
        (Stored \<lparr>default_db_initialized = True, dbs_initialized = [''a'' \<mapsto> SUBSCRIBED]\<rparr>))
       = Return empty_status
   \<and> file_of (update_database_init_status forced_env ''b'' CREATED
        (Stored \<lparr>default_db_initialized = True, dbs_initialized = [''a'' \<mapsto> SUBSCRIBED]\<rparr>))
       = Stored \<lparr>default_db_initialized = False, dbs_initialized = [''b'' \<mapsto> CREATED]\<rparr>"
proof -
  have h: "force_update forced_env"
    by code_simp
  show ?thesis
    using h forced_run_reads_empty_and_writes_afresh [OF h, where d = "''b''" and st = CREATED
        and f = "Stored \<lparr>default_db_initialized = True, dbs_initialized = [''a'' \<mapsto> SUBSCRIBED]\<rparr>"]
    by simp
qed

text \<open>
  C5 as stated fails: with the force flag set, a status write for one database erases the
  status recorded for another database and resets the flag of the primary database, in
  \<open>update_database_init_status\<close> alone and in a whole run of \<open>main\<close>.
\<close>

theorem forced_write_erases_other_entries:
  "force_update forced_env
   \<and> recorded_status
        (Stored \<lparr>default_db_initialized = True, dbs_initialized = [''a'' \<mapsto> SUBSCRIBED]\<rparr>) ''a''
       = Some SUBSCRIBED
   \<and> recorded_default
        (Stored \<lparr>default_db_initialized = True, dbs_initialized = [''a'' \<mapsto> SUBSCRIBED]\<rparr>)
   \<and> recorded_status
        (file_of (update_database_init_status forced_env ''b'' CREATED
          (Stored \<lparr>default_db_initialized = True, dbs_initialized = [''a'' \<mapsto> SUBSCRIBED]\<rparr>))) ''a''
       = None
   \<and> \<not> recorded_default
        (file_of (update_database_init_status forced_env ''b'' CREATED
          (Stored \<lparr>default_db_initialized = True, dbs_initialized = [''a'' \<mapsto> SUBSCRIBED]\<rparr>)))
   \<and> recorded_status
        (file_of (main forced_env restart_world (sample_db ''main'' [n1, n2])
          [sample_db ''b'' [n1, n2]]
          (Stored \<lparr>default_db_initialized = True, dbs_initialized = [''a'' \<mapsto> SUBSCRIBED]\<rparr>))) ''a''
       = None
   \<and> \<not> recorded_default
        (file_of (main forced_env restart_world (sample_db ''main'' [n1, n2])
          [sample_db ''b'' [n1, n2]]
          (Stored \<lparr>default_db_initialized = True, dbs_initialized = [''a'' \<mapsto> SUBSCRIBED]\<rparr>)))"
  by code_simp

subsection \<open>The peer rendezvous\<close>

lemma spock_sub_create_sql_text:
  "spock_sub_create_sql sub_name other_dsn =
     ''\<newline>    SELECT spock.sub_create(\<newline>        subscription_name := '' @ quoted sub_name
     @ '',\<newline>        provider_dsn := '' @ quoted other_dsn
     @ '',\<newline>        replication_sets := '{default, default_insert_only, ddl_sql}',\<newline>        forward_origins := '{}',\<newline>        synchronize_structure := 'true',\<newline>        synchronize_data := 'true',\<newline>        apply_delay := '0'\<newline>    );''"
  by (simp add: spock_sub_create_sql_def quoted_def)

lemma dsn_no_password:
  "dsn dbname user None host default_port =
     ''host='' @ host @ '' dbname='' @ dbname @ '' user='' @ user @ '' port=5432''"
  by (simp add: dsn_def default_port_def)

lemma subscribe_peer_returns:
  assumes "outcome_of (subscribe_peer w db_info True peer f) = Return ()"
  shows "subscribe_peer w db_info True peer f = (Return (), subscription_round db_info peer, f)"
proof (cases "get_hostname peer")
  case (Inl e)
  then show ?thesis
    using assms by (simp add: subscribe_peer_def andthen_info andthen_raise)
next
  case (Inr host)
  show ?thesis
    using assms
    by (simp add: subscribe_peer_def Inr Let_def andthen_info andthen_sleep andthen_emit
          andthen_forever andthen_assoc andthen_ret_right wait_for_spock_node_def connect_def
          spock_sub_drop_def spock_sub_create_def execute_until_ok_def
          subscription_round_def subscription_name_def peer_host_def
          spock_sub_create_sql_text spock_sub_drop_sql_def dsn_no_password
          split: if_splits)
qed

lemma for_each_subscribe_peer_returns:
  assumes "outcome_of (for_each (subscribe_peer w db_info True) peers f) = Return ()"
  shows "for_each (subscribe_peer w db_info True) peers f =
     (Return (), concat (map (subscription_round db_info) peers), f)"
  using assms
proof (induction peers)
  case Nil
  then show ?case by simp
next
  case (Cons p ps)
  from Cons.prems have a: "outcome_of (subscribe_peer w db_info True p f) = Return ()"
    and b: "outcome_of (for_each (subscribe_peer w db_info True) ps
              (file_of (subscribe_peer w db_info True p f))) = Return ()"
    using andthen_outcome_Return [of "subscribe_peer w db_info True p"
        "for_each (subscribe_peer w db_info True) ps" f "()"]
    by simp_all
  note s = subscribe_peer_returns [OF a]
  from b have b': "outcome_of (for_each (subscribe_peer w db_info True) ps f) = Return ()"
    by (simp add: s)
  show ?case
    by (simp add: andthen_Return [where m = "subscribe_peer w db_info True p", OF s]
          Cons.IH [OF b'])
qed

lemma init_peer_spock_subscriptions_returns:
  assumes "outcome_of (init_peer_spock_subscriptions w db_info True f) = Return True"
  shows "events_of (init_peer_spock_subscriptions w db_info True f) =
     Connect (local_dsn db_info) False
       # concat (map (subscription_round db_info)
           (filter (\<lambda>node. node_spec_id node \<noteq> node_id db_info) (nodes db_info)))"
proof (cases "filter (\<lambda>node. node_spec_id node \<noteq> node_id db_info) (nodes db_info) = []")
  case True
  then show ?thesis
    using assms by (simp add: init_peer_spock_subscriptions_no_peers)
next
  case False
  let ?peers = "filter (\<lambda>node. node_spec_id node \<noteq> node_id db_info) (nodes db_info)"
  let ?loop = "for_each (subscribe_peer w db_info True) ?peers"
  have unfold: "init_peer_spock_subscriptions w db_info True f =
      andthen (connect w (local_dsn db_info) False) (andthen ?loop (ret True)) f"
    using False by (simp add: init_peer_spock_subscriptions_def Let_def)
  show ?thesis
  proof (cases "accepts w (local_dsn db_info)")
    case False
    then show ?thesis
      using assms by (simp add: unfold connect_def andthen_forever)
  next
    case True
    have c: "connect w (local_dsn db_info) False = emit (Connect (local_dsn db_info) False)"
      using True by (simp add: connect_def)
    from assms have "outcome_of (andthen ?loop (ret True) f) = Return True"
      by (simp add: unfold c andthen_emit)
    then have "outcome_of (?loop f) = Return ()"
      using andthen_outcome_Return [of ?loop "ret True" f True] by simp
    then have l: "?loop f = (Return (), concat (map (subscription_round db_info) ?peers), f)"
      by (rule for_each_subscribe_peer_returns)
    show ?thesis
      by (simp add: unfold c andthen_emit andthen_Return [where m = ?loop, OF l])
  qed
qed

lemma subscribe_peer_prefix:
  "\<exists>rest. subscription_round db_info peer
     = events_of (subscribe_peer w db_info True peer f) @ rest"
proof (cases "get_hostname peer")
  case (Inl e)
  then show ?thesis
    by (simp add: subscribe_peer_def andthen_info andthen_raise subscription_round_def Let_def)
next
  case (Inr host)
  show ?thesis
    by (simp add: subscribe_peer_def Inr Let_def andthen_info andthen_sleep andthen_emit
          andthen_forever andthen_assoc andthen_ret_right wait_for_spock_node_def connect_def
          spock_sub_drop_def spock_sub_create_def execute_until_ok_def
          subscription_round_def subscription_name_def peer_host_def
          spock_sub_create_sql_text spock_sub_drop_sql_def dsn_no_password)
qed

lemma for_each_subscribe_peer_prefix:
  "\<exists>rest. concat (map (subscription_round db_info) peers)
     = events_of (for_each (subscribe_peer w db_info True) peers f) @ rest"
proof (induction peers)
  case Nil
  show ?case by simp
next
  case (Cons p ps)
  let ?sp = "subscribe_peer w db_info True p"
  have ev: "events_of (for_each (subscribe_peer w db_info True) (p # ps) f) =
      events_of (?sp f)
      @ (if outcome_of (?sp f) = Return ()
         then events_of (for_each (subscribe_peer w db_info True) ps f) else [])"
    by (simp add: events_of_andthen_quiet [OF quiet_subscribe_peer])
  show ?case
  proof (cases "outcome_of (?sp f) = Return ()")
    case True
    from Cons.IH obtain rest where
      r: "concat (map (subscription_round db_info) ps)
          = events_of (for_each (subscribe_peer w db_info True) ps f) @ rest"
      by blast
    have e: "events_of (?sp f) = subscription_round db_info p"
      by (subst subscribe_peer_returns [OF True]) simp
    have "concat (map (subscription_round db_info) (p # ps)) =
        events_of (for_each (subscribe_peer w db_info True) (p # ps) f) @ rest"
      unfolding ev using True r e by simp
    then show ?thesis by blast
  next
    case False
    from subscribe_peer_prefix obtain rest where
      r: "subscription_round db_info p = events_of (?sp f) @ rest"
      by blast
    have "concat (map (subscription_round db_info) (p # ps)) =
        events_of (for_each (subscribe_peer w db_info True) (p # ps) f)
        @ (rest @ concat (map (subscription_round db_info) ps))"
      unfolding ev using False r by simp
    then show ?thesis by blast
  qed
qed

lemma init_peer_spock_subscriptions_prefix:
  assumes "filter (\<lambda>node. node_spec_id node \<noteq> node_id db_info) (nodes db_info) \<noteq> []"
  shows "\<exists>rest. Connect (local_dsn db_info) False
       # concat (map (subscription_round db_info)
           (filter (\<lambda>node. node_spec_id node \<noteq> node_id db_info) (nodes db_info)))
     = events_of (init_peer_spock_subscriptions w db_info True f) @ rest"
proof -
  let ?peers = "filter (\<lambda>node. node_spec_id node \<noteq> node_id db_info) (nodes db_info)"
  let ?loop = "for_each (subscribe_peer w db_info True) ?peers"
  have unfold: "init_peer_spock_subscriptions w db_info True f =
      andthen (connect w (local_dsn db_info) False) (andthen ?loop (ret True)) f"
    using assms by (simp add: init_peer_spock_subscriptions_def Let_def)
  show ?thesis
  proof (cases "accepts w (local_dsn db_info)")
    case False
    then show ?thesis
      by (simp add: unfold connect_def andthen_forever)
  next
    case True
    have c: "connect w (local_dsn db_info) False = emit (Connect (local_dsn db_info) False)"
      using True by (simp add: connect_def)
    have q: "quiet ?loop"
      by (rule quiet_for_each) (rule quiet_subscribe_peer)
    have ev: "events_of (init_peer_spock_subscriptions w db_info True f)
        = Connect (local_dsn db_info) False # events_of (?loop f)"
      by (simp add: unfold c andthen_emit events_of_andthen_quiet [OF q])
    from for_each_subscribe_peer_prefix obtain rest where
      "concat (map (subscription_round db_info) ?peers) = events_of (?loop f) @ rest"
      by blast
    then show ?thesis
      by (simp add: ev)
  qed
qed

text \<open>
  C9. In every run of the peer rendezvous of a database that has peers, whatever the
  engine does, the trace is an initial part of this sequence: the connection for the
  cursor followed, for each peer in turn, by one round as the specification describes it.
  When the rendezvous returns \<open>True\<close> the trace is the whole sequence. So every
  subscription is created with the replication sets \<open>default\<close>, \<open>default_insert_only\<close>,
  \<open>ddl_sql\<close>, empty \<open>forward_origins\<close>, \<open>synchronize_structure\<close> and \<open>synchronize_data\<close>
  true and \<open>apply_delay\<close> 0, under the name \<open>sub_<database>_<self>_<peer>\<close>, and the drop
  sent just before it for that peer carries the same name.
\<close>

theorem peer_subscriptions_fixed_parameters_and_names:
  "(outcome_of (init_peer_spock_subscriptions w db_info True f) = Return True \<longrightarrow>
      events_of (init_peer_spock_subscriptions w db_info True f) =
        Connect (local_dsn db_info) False
          # concat (map (subscription_round db_info)
              (filter (\<lambda>node. node_spec_id node \<noteq> node_id db_info) (nodes db_info))))
   \<and> (filter (\<lambda>node. node_spec_id node \<noteq> node_id db_info) (nodes db_info) \<noteq> [] \<longrightarrow>
      (\<exists>rest. Connect (local_dsn db_info) False
          # concat (map (subscription_round db_info)
              (filter (\<lambda>node. node_spec_id node \<noteq> node_id db_info) (nodes db_info)))
        = events_of (init_peer_spock_subscriptions w db_info True f) @ rest))"
  using init_peer_spock_subscriptions_returns [of w db_info f]
    init_peer_spock_subscriptions_prefix [of db_info w f]
  by blast

theorem peer_subscriptions_fixed_parameters_and_names_witness:
  "outcome_of (init_peer_spock_subscriptions restart_world (sample_db ''d'' [n1, n2]) True Missing)
     = Return True
   \<and> executed (events_of
        (init_peer_spock_subscriptions restart_world (sample_db ''d'' [n1, n2]) True Missing))
     = [(''host=h2 dbname=d user=pgedge port=5432'', ''SELECT COUNT(*) FROM spock.node;''),
        (''host=localhost dbname=d user=admin port=5432 password=pw'',
         ''\<newline>    SELECT spock.sub_drop(\<newline>        subscription_name := 'sub_d_n1_n2',\<newline>        ifexists := 'true'\<newline>    );''),
        (''host=localhost dbname=d user=admin port=5432 password=pw'',
         ''\<newline>    SELECT spock.sub_create(\<newline>        subscription_name := 'sub_d_n1_n2',\<newline>        provider_dsn := 'host=h2 dbname=d user=pgedge port=5432',\<newline>        replication_sets := '{default, default_insert_only, ddl_sql}',\<newline>        forward_origins := '{}',\<newline>        synchronize_structure := 'true',\<newline>        synchronize_data := 'true',\<newline>        apply_delay := '0'\<newline>    );'')]"
proof -
  have h: "outcome_of (init_peer_spock_subscriptions restart_world (sample_db ''d'' [n1, n2]) True Missing)
     = Return True"
    by code_simp
  show ?thesis
    using h peer_subscriptions_fixed_parameters_and_names
        [of restart_world "sample_db ''d'' [n1, n2]" Missing]
    by (simp add: subscription_round_def subscription_name_def peer_host_def get_hostname_def
          sample_db_def n1_def n2_def dsn_def default_port_def quoted_def Let_def)
qed

subsection \<open>The roles of the privilege bundle\<close>




subsection \<open>Programs that keep a status\<close>

lemma keeps_quiet: "quiet p \<Longrightarrow> keeps d st p"
  by (simp add: keeps_def quiet_def)

lemma keeps_bnd:
  assumes "keeps d st m" and "\<And>a. keeps d st (k a)"
  shows "keeps d st (bnd m k)"
  unfolding keeps_def
proof (intro allI impI)
  fix f assume r: "recorded_status f d = Some st"
  have m: "recorded_status (file_of (m f)) d = Some st"
    using assms(1) r by (simp add: keeps_def)
  show "recorded_status (file_of (bnd m k f)) d = Some st"
  proof (cases "outcome_of (m f)")
    case (Return a)
    then show ?thesis using assms(2) [of a] m by (simp add: file_of_bnd keeps_def)
  qed (simp_all add: file_of_bnd m)
qed

lemma keeps_andthen: "keeps d st m \<Longrightarrow> keeps d st k \<Longrightarrow> keeps d st (andthen m k)"
  by (simp add: andthen_def keeps_bnd)

lemma keeps_if: "(c \<Longrightarrow> keeps d st p) \<Longrightarrow> (\<not> c \<Longrightarrow> keeps d st q) \<Longrightarrow> keeps d st (if c then p else q)"
  by simp

lemma keeps_for_each:
  "(\<And>x. x \<in> set xs \<Longrightarrow> keeps d st (body x)) \<Longrightarrow> keeps d st (for_each body xs)"
  by (induction xs) (simp_all add: keeps_quiet quiet_ret keeps_andthen)

lemma keeps_update_database:
  assumes "\<not> force_update env" and "d' \<noteq> d"
  shows "keeps d st (update_database_init_status env d' st')"
  unfolding keeps_def
proof (intro allI impI)
  fix f assume r: "recorded_status f d = Some st"
  then obtain s where f: "f = Stored s"
    by (cases f) (simp_all add: recorded_status_def)
  have rd: "outcome_of (read_init_status env (Stored s)) = Return s"
    by (simp add: read_init_status_unforced [OF assms(1)])
  show "recorded_status (file_of (update_database_init_status env d' st' f)) d = Some st"
    using r assms(2) unfolding f
    by (simp add: update_database_init_status_Return [OF rd] recorded_status_def)
qed

lemma keeps_update_default:
  assumes "\<not> force_update env"
  shows "keeps d st (update_default_db_init_status env b)"
  unfolding keeps_def
proof (intro allI impI)
  fix f assume r: "recorded_status f d = Some st"
  then obtain s where f: "f = Stored s"
    by (cases f) (simp_all add: recorded_status_def)
  have rd: "outcome_of (read_init_status env (Stored s)) = Return s"
    by (simp add: read_init_status_unforced [OF assms(1)])
  show "recorded_status (file_of (update_default_db_init_status env b f)) d = Some st"
    using r unfolding f
    by (simp add: update_default_db_init_status_Return [OF rd] recorded_status_def)
qed

lemmas keeps_basics = quiet_basics [THEN keeps_quiet]

lemma keeps_init_default_database:
  assumes nf: "\<not> force_update env"
  shows "keeps d st (init_default_database env w db_info)"
proof -
  have q: "quiet (case get_superuser_roles env of Inl e \<Rightarrow> raise e
                  | Inr roles \<Rightarrow> execute_all w c (g roles))" for c g
    by (cases "get_superuser_roles env") (simp_all add: quiet_basics)
  show ?thesis
    unfolding init_default_database_def Let_def block.simps
    by (intro keeps_bnd keeps_if keeps_andthen keeps_update_default nf
          keeps_quiet [OF quiet_read_init_status] keeps_quiet [OF quiet_init_spock_node]
          keeps_quiet [OF quiet_init_peer_spock_subscriptions] keeps_quiet [OF q] keeps_basics)
qed

lemma keeps_before_loops:
  assumes nf: "\<not> force_update env"
  shows "keeps d st (before_loops env w default_db_info)"
  unfolding before_loops_def Let_def
  by (intro keeps_andthen keeps_if keeps_init_default_database nf keeps_basics)

lemma init_database_recorded:
  assumes "\<not> force_update env" and "recorded_status f (database_name db_info) = Some st"
  shows "init_database env w db_info f =
     (Return (),
      [Info (''database '' @ database_name db_info @ '' already fully initialized, skipping'')],
      f)"
proof -
  obtain s where f: "f = Stored s"
    using assms(2) by (cases f) (simp_all add: recorded_status_def)
  have rd: "read_init_status env (Stored s) = (Return s, [], Stored s)"
    by (simp add: read_init_status_unforced [OF assms(1)])
  show ?thesis
    using assms(2) unfolding f
    by (simp add: init_database_def bnd_Return [where m = "read_init_status env", OF rd]
          Let_def recorded_status_def)
qed

lemma keeps_init_database:
  assumes nf: "\<not> force_update env"
  shows "keeps d st (init_database env w db_info)"
proof (cases "database_name db_info = d")
  case True
  show ?thesis
    unfolding keeps_def
  proof (intro allI impI)
    fix f assume r: "recorded_status f d = Some st"
    show "recorded_status (file_of (init_database env w db_info f)) d = Some st"
      using r init_database_recorded [OF nf, of f db_info st w] True by simp
  qed
next
  case False
  show ?thesis
    unfolding init_database_def Let_def block.simps
    by (intro keeps_bnd keeps_if keeps_andthen keeps_update_database nf False
          keeps_quiet [OF quiet_read_init_status] keeps_basics)
qed

lemma spock_node_step_done:
  assumes "\<not> force_update env" and "recorded_status f (database_name db_info) = Some st"
    and "st \<noteq> CREATED"
  shows "spock_node_step env w schemas db_info f =
     (Return (),
      [Info (''database spock node '' @ database_name db_info @ '' already initialized, skipping'')],
      f)"
proof -
  obtain s where f: "f = Stored s"
    using assms(2) by (cases f) (simp_all add: recorded_status_def)
  have rd: "read_init_status env (Stored s) = (Return s, [], Stored s)"
    by (simp add: read_init_status_unforced [OF assms(1)])
  show ?thesis
    using assms(2,3) unfolding f
    by (simp add: spock_node_step_def bnd_Return [where m = "read_init_status env", OF rd]
          Let_def recorded_status_def)
qed

lemma keeps_spock_node_step:
  assumes nf: "\<not> force_update env" and other: "database_name db_info \<noteq> d \<or> st \<noteq> CREATED"
  shows "keeps d st (spock_node_step env w schemas db_info)"
proof (cases "database_name db_info = d")
  case True
  with other have st: "st \<noteq> CREATED" by simp
  show ?thesis
    unfolding keeps_def
  proof (intro allI impI)
    fix f assume r: "recorded_status f d = Some st"
    show "recorded_status (file_of (spock_node_step env w schemas db_info f)) d = Some st"
      using r spock_node_step_done [OF nf _ st, of f db_info w schemas] True by simp
  qed
next
  case False
  show ?thesis
    unfolding spock_node_step_def Let_def block.simps
    by (intro keeps_bnd keeps_if keeps_andthen keeps_update_database nf False
          keeps_quiet [OF quiet_read_init_status] keeps_quiet [OF quiet_init_spock_node]
          keeps_basics)
qed

lemma keeps_peer_subscription_step:
  assumes nf: "\<not> force_update env" and other: "database_name db_info \<noteq> d"
  shows "keeps d st (peer_subscription_step env w db_info)"
  unfolding peer_subscription_step_def Let_def
  by (intro keeps_bnd keeps_if keeps_andthen keeps_update_database nf other
        keeps_quiet [OF quiet_read_init_status]
        keeps_quiet [OF quiet_init_peer_spock_subscriptions] keeps_basics)

subsection \<open>Programs without lookup\<close>

lemma without_lookup_ret: "without_lookup d (ret a)" by (simp add: without_lookup_def)
lemma without_lookup_info: "without_lookup d (info m)" by (simp add: without_lookup_def)
lemma without_lookup_sleep: "without_lookup d (sleep n)" by (simp add: without_lookup_def)
lemma without_lookup_sys_exit: "without_lookup d (sys_exit n)" by (simp add: without_lookup_def)
lemma without_lookup_raise: "without_lookup d (raise e)" by (simp add: without_lookup_def)
lemma without_lookup_forever: "without_lookup d forever" by (simp add: without_lookup_def)
lemma without_lookup_emit:
  "(\<And>c sql. e \<noteq> ExecuteParams c sql [d]) \<Longrightarrow> without_lookup d (emit e)"
  by (auto simp add: without_lookup_def)

lemma without_lookup_bnd:
  "without_lookup d m \<Longrightarrow> (\<And>a. without_lookup d (k a)) \<Longrightarrow> without_lookup d (bnd m k)"
  unfolding without_lookup_def
  by (auto simp add: events_of_bnd split: outcome.splits)

lemma without_lookup_andthen:
  "without_lookup d m \<Longrightarrow> without_lookup d k \<Longrightarrow> without_lookup d (andthen m k)"
  by (simp add: andthen_def without_lookup_bnd)

lemma without_lookup_if:
  "(c \<Longrightarrow> without_lookup d p) \<Longrightarrow> (\<not> c \<Longrightarrow> without_lookup d q)
   \<Longrightarrow> without_lookup d (if c then p else q)"
  by simp

lemma without_lookup_for_each:
  "(\<And>x. without_lookup d (body x)) \<Longrightarrow> without_lookup d (for_each body xs)"
  by (induction xs) (simp_all add: without_lookup_ret without_lookup_andthen)

lemma without_lookup_connect: "without_lookup d (connect w c a)"
  by (simp add: connect_def without_lookup_emit without_lookup_forever)

lemma without_lookup_execute: "without_lookup d (execute w c sql)"
  by (simp add: execute_def without_lookup_andthen without_lookup_emit without_lookup_raise
        without_lookup_ret)

lemma without_lookup_execute_params:
  "ps \<noteq> [d] \<Longrightarrow> without_lookup d (execute_params w c sql ps)"
  by (simp add: execute_params_def without_lookup_andthen without_lookup_emit
        without_lookup_raise without_lookup_ret)

lemma without_lookup_execute_all: "without_lookup d (execute_all w c stmts)"
  by (simp add: execute_all_def without_lookup_for_each without_lookup_execute)

lemma without_lookup_execute_until_ok: "without_lookup d (execute_until_ok w c sql)"
  by (simp add: execute_until_ok_def without_lookup_emit without_lookup_forever)

lemma without_lookup_wait_for_spock_node: "without_lookup d (wait_for_spock_node w c)"
  by (simp add: wait_for_spock_node_def without_lookup_andthen without_lookup_connect
        without_lookup_emit without_lookup_forever)

lemma without_lookup_spock_sub_create: "without_lookup d (spock_sub_create w c n o')"
  by (simp add: spock_sub_create_def without_lookup_execute_until_ok)

lemma without_lookup_spock_sub_drop: "without_lookup d (spock_sub_drop w c n)"
  by (simp add: spock_sub_drop_def without_lookup_execute_until_ok)

lemma without_lookup_read_init_status: "without_lookup d (read_init_status env)"
  by (simp add: without_lookup_def read_init_status_events)

lemma without_lookup_dump_init_status: "without_lookup d (dump_init_status s)"
  by (simp add: without_lookup_def dump_init_status_result)

lemma without_lookup_update_database:
  "without_lookup d (update_database_init_status env d' st)"
  unfolding update_database_init_status_def
  by (intro without_lookup_bnd without_lookup_read_init_status without_lookup_dump_init_status)

lemma without_lookup_update_default:
  "without_lookup d (update_default_db_init_status env b)"
  unfolding update_default_db_init_status_def
  by (intro without_lookup_bnd without_lookup_read_init_status without_lookup_dump_init_status)

lemmas without_lookup_basics = without_lookup_ret without_lookup_info without_lookup_sleep
  without_lookup_sys_exit without_lookup_raise without_lookup_forever without_lookup_connect
  without_lookup_execute without_lookup_execute_all without_lookup_execute_until_ok
  without_lookup_wait_for_spock_node without_lookup_spock_sub_create
  without_lookup_spock_sub_drop without_lookup_read_init_status
  without_lookup_update_database without_lookup_update_default

lemma without_lookup_init_spock_node: "without_lookup d (init_spock_node w db_info schemas)"
  unfolding init_spock_node_def block.simps
  by (intro without_lookup_andthen without_lookup_basics)

lemma without_lookup_subscribe_peer:
  "without_lookup d (subscribe_peer w db_info drop_existing peer)"
  unfolding subscribe_peer_def Let_def block.simps
  by (auto intro!: without_lookup_andthen without_lookup_basics split: sum.splits)

lemma without_lookup_init_peer_spock_subscriptions:
  "without_lookup d (init_peer_spock_subscriptions w db_info drop_existing)"
  unfolding init_peer_spock_subscriptions_def Let_def
  by (auto intro!: without_lookup_andthen without_lookup_basics without_lookup_for_each
        without_lookup_subscribe_peer)

lemma without_lookup_init_default_database:
  "without_lookup d (init_default_database env w db_info)"
proof -
  have q: "without_lookup d (case get_superuser_roles env of Inl e \<Rightarrow> raise e
                  | Inr roles \<Rightarrow> execute_all w c (g roles))" for c g
    by (cases "get_superuser_roles env") (simp_all add: without_lookup_basics)
  show ?thesis
    unfolding init_default_database_def Let_def block.simps
    by (intro without_lookup_bnd without_lookup_if without_lookup_andthen q
          without_lookup_init_spock_node without_lookup_init_peer_spock_subscriptions
          without_lookup_basics)
qed

lemma without_lookup_before_loops: "without_lookup d (before_loops env w default_db_info)"
  unfolding before_loops_def Let_def
  by (intro without_lookup_andthen without_lookup_if without_lookup_init_default_database
        without_lookup_basics)

lemma without_lookup_init_database:
  assumes "database_name db_info \<noteq> d"
  shows "without_lookup d (init_database env w db_info)"
proof -
  have p: "without_lookup d (execute_params w c sql [database_name db_info])" for c sql
    by (rule without_lookup_execute_params) (simp add: assms)
  show ?thesis
    unfolding init_database_def Let_def block.simps
    by (intro without_lookup_bnd without_lookup_if without_lookup_andthen p
          without_lookup_basics)
qed

lemma without_lookup_spock_node_step:
  "without_lookup d (spock_node_step env w schemas db_info)"
  unfolding spock_node_step_def Let_def block.simps
  by (intro without_lookup_bnd without_lookup_if without_lookup_andthen
        without_lookup_init_spock_node without_lookup_basics)

lemma without_lookup_peer_subscription_step:
  "without_lookup d (peer_subscription_step env w db_info)"
  unfolding peer_subscription_step_def Let_def
  by (intro without_lookup_bnd without_lookup_if without_lookup_andthen
        without_lookup_init_peer_spock_subscriptions without_lookup_basics)

lemma without_lookup_closing:
  "without_lookup d
     (andthen (if dbs_info = [] then raise (UnboundLocalError ''db_info'')
               else info (''cluster node initialized ('' @ node_name (last dbs_info) @ '')''))
        (ret ()))"
  by (intro without_lookup_andthen without_lookup_if without_lookup_basics)

text \<open>While a database is recorded, the creation loop sends no lookup for it.\<close>

lemma creation_loop_recorded:
  assumes nf: "\<not> force_update env"
  shows "recorded_status f d = Some st \<Longrightarrow>
     ExecuteParams c sql [d] \<notin> set (events_of (for_each (init_database env w) dbs f))"
proof (induction dbs arbitrary: f)
  case Nil
  show ?case by simp
next
  case (Cons x xs)
  let ?f' = "file_of (init_database env w x f)"
  have kept: "recorded_status ?f' d = Some st"
    using keeps_init_database [OF nf, of d st w x] Cons.prems by (simp add: keeps_def)
  have here: "ExecuteParams c sql [d] \<notin> set (events_of (init_database env w x f))"
  proof (cases "database_name x = d")
    case True
    then show ?thesis
      using init_database_recorded [OF nf, of f x st w] Cons.prems by simp
  next
    case False
    then show ?thesis
      using without_lookup_init_database [of x d env w] by (simp add: without_lookup_def)
  qed
  show ?case
    using here Cons.IH [OF kept]
    by (auto simp add: andthen_def events_of_bnd split: outcome.splits)
qed

subsection \<open>Resuming after a crash\<close>

lemma run_collapse: "(outcome_of x, events_of x, file_of x) = x"
  by (cases x) simp

lemma andthen_returns:
  assumes "outcome_of (m f) = Return ()"
  shows "andthen m k f =
     (outcome_of (k (file_of (m f))), events_of (m f) @ events_of (k (file_of (m f))),
      file_of (k (file_of (m f))))"
proof -
  have "m f = (Return (), events_of (m f), file_of (m f))"
    using assms by (cases "m f") simp
  then show ?thesis by (rule andthen_Return)
qed

lemma events_of_andthen_cases:
  assumes "e \<in> set (events_of (andthen m k f))"
  shows "e \<in> set (events_of (m f)) \<or> e \<in> set (events_of (k (file_of (m f))))"
  using assms
  by (cases "outcome_of (m f)") (simp_all add: andthen_def events_of_bnd)

lemma trace_reaches:
  assumes "p = andthen u (andthen s r)" and "outcome_of (u f) = Return ()"
  shows "\<exists>rest. events_of (p f) = events_of (u f) @ events_of (s (file_of (u f))) @ rest"
proof -
  have "events_of (p f) = events_of (u f) @ events_of (andthen s r (file_of (u f)))"
    by (simp add: assms(1) andthen_returns [where m = u, OF assms(2)])
  moreover have "events_of (andthen s r g) =
      events_of (s g)
      @ (case outcome_of (s g) of Return a \<Rightarrow> events_of (r (file_of (s g))) | _ \<Rightarrow> [])" for g
    by (simp add: andthen_def events_of_bnd)
  ultimately show ?thesis by simp
qed

lemma main_loops:
  assumes "mode default_db_info \<noteq> Some ''offline''"
  shows "main env w default_db_info dbs_info =
     andthen (before_loops env w default_db_info)
       (andthen (for_each (init_database env w) dbs_info)
          (andthen (for_each (spock_node_step env w default_schemas) dbs_info)
             (andthen (for_each (peer_subscription_step env w) dbs_info)
                (andthen
                   (if dbs_info = [] then raise (UnboundLocalError ''db_info'')
                    else info (''cluster node initialized ('' @ node_name (last dbs_info) @ '')''))
                   (ret ())))))"
  by (simp add: main_online [OF assms] before_loops_def init_other_databases_def Let_def
        andthen_assoc)

lemma main_reaches_creation:
  assumes "mode default_db_info \<noteq> Some ''offline''"
  shows "\<exists>r. main env w default_db_info (pre @ db_info # post) =
     andthen (until_creation env w default_db_info pre)
       (andthen (init_database env w db_info) r)"
  apply (simp only: main_loops [OF assms] until_creation_def for_each_append for_each.simps andthen_assoc)
  apply (rule exI)
  apply (rule refl)
  done

lemma main_reaches_node_init:
  assumes "mode default_db_info \<noteq> Some ''offline''"
  shows "\<exists>r. main env w default_db_info (pre @ db_info # post) =
     andthen (until_node_init env w default_db_info (pre @ db_info # post) pre)
       (andthen (spock_node_step env w default_schemas db_info) r)"
  apply (simp only: main_loops [OF assms] until_node_init_def for_each_append for_each.simps andthen_assoc)
  apply (rule exI)
  apply (rule refl)
  done

lemma main_reaches_rendezvous:
  assumes "mode default_db_info \<noteq> Some ''offline''"
  shows "\<exists>r. main env w default_db_info (pre @ db_info # post) =
     andthen (until_rendezvous env w default_db_info (pre @ db_info # post) pre)
       (andthen (peer_subscription_step env w db_info) r)"
  apply (simp only: main_loops [OF assms] until_rendezvous_def for_each_append for_each.simps andthen_assoc)
  apply (rule exI)
  apply (rule refl)
  done

lemma until_rendezvous_reaches:
  "until_rendezvous env w default_db_info (pre @ db_info # post) pre =
     andthen (until_node_init env w default_db_info (pre @ db_info # post) pre)
       (andthen (spock_node_step env w default_schemas db_info)
          (andthen (for_each (spock_node_step env w default_schemas) post)
             (for_each (peer_subscription_step env w) pre)))"
  by (simp add: until_rendezvous_def until_node_init_def for_each_append andthen_assoc)

lemma update_database_recorded:
  assumes "\<not> force_update env" and "recorded_status f d' = Some st'"
  shows "update_database_init_status env d st f =
       (Return (), [WriteFile f (file_of (update_database_init_status env d st f))],
        file_of (update_database_init_status env d st f))
     \<and> recorded_status (file_of (update_database_init_status env d st f)) d = Some st"
proof -
  obtain s where f: "f = Stored s"
    using assms(2) by (cases f) (simp_all add: recorded_status_def)
  have rd: "outcome_of (read_init_status env (Stored s)) = Return s"
    by (simp add: read_init_status_unforced [OF assms(1)])
  show ?thesis
    unfolding f
    by (simp add: update_database_init_status_Return [OF rd] read_unforced_events [OF assms(1)]
          recorded_status_def)
qed

lemma spock_node_step_created:
  assumes "\<not> force_update env" and "recorded_status f (database_name db_info) = Some CREATED"
  shows "spock_node_step env w schemas db_info f =
     andthen (info (''database '' @ database_name db_info @ '' created, initializing spock node''))
       (andthen (init_spock_node w db_info schemas)
          (andthen (update_database_init_status env (database_name db_info) INITED)
             (andthen (sleep 5)
                (info (''spock node of '' @ database_name db_info @ '' initialized.''))))) f"
proof -
  obtain s where f: "f = Stored s"
    using assms(2) by (cases f) (simp_all add: recorded_status_def)
  have rd: "read_init_status env (Stored s) = (Return s, [], Stored s)"
    by (simp add: read_init_status_unforced [OF assms(1)])
  show ?thesis
    using assms(2) unfolding f
    by (simp add: spock_node_step_def bnd_Return [where m = "read_init_status env", OF rd]
          Let_def recorded_status_def andthen_ret_right run_collapse)
qed

lemma spock_node_step_created_events:
  assumes "\<not> force_update env" and "recorded_status f (database_name db_info) = Some CREATED"
  shows "events_of (spock_node_step env w schemas db_info f) =
     Info (''database '' @ database_name db_info @ '' created, initializing spock node'')
     # events_of (init_spock_node w db_info schemas f)
     @ (if outcome_of (init_spock_node w db_info schemas f) = Return ()
        then [WriteFile f (file_of (update_database_init_status env (database_name db_info) INITED f)),
              Sleep 5,
              Info (''spock node of '' @ database_name db_info @ '' initialized.'')]
        else [])"
  by (simp add: spock_node_step_created [OF assms] andthen_info
        events_of_andthen_quiet [OF quiet_init_spock_node]
        andthen_Return [where m = "update_database_init_status env (database_name db_info) INITED",
          OF update_database_recorded [OF assms, THEN conjunct1]]
        andthen_sleep)

lemma spock_node_step_created_file:
  assumes "\<not> force_update env" and "recorded_status f (database_name db_info) = Some CREATED"
    and "outcome_of (spock_node_step env w schemas db_info f) = Return ()"
  shows "recorded_status (file_of (spock_node_step env w schemas db_info f))
           (database_name db_info) = Some INITED"
proof -
  have ok: "outcome_of (init_spock_node w db_info schemas f) = Return ()"
    using assms(3)
    by (cases "outcome_of (init_spock_node w db_info schemas f)")
       (simp_all add: spock_node_step_created [OF assms(1,2)] andthen_info andthen_def
          outcome_of_bnd)
  have a: "init_spock_node w db_info schemas f
      = (Return (), events_of (init_spock_node w db_info schemas f), f)"
    using quiet_result [OF quiet_init_spock_node, of w db_info schemas f] ok by simp
  have "file_of (spock_node_step env w schemas db_info f) =
      file_of (update_database_init_status env (database_name db_info) INITED f)"
    by (simp add: spock_node_step_created [OF assms(1,2)] andthen_info
        andthen_Return [where m = "init_spock_node w db_info schemas", OF a]
        andthen_Return [where m = "update_database_init_status env (database_name db_info) INITED",
          OF update_database_recorded [OF assms(1,2), THEN conjunct1]]
        andthen_sleep)
  then show ?thesis
    using update_database_recorded [OF assms(1,2), THEN conjunct2] by simp
qed

lemma peer_subscription_step_pending:
  assumes "\<not> force_update env" and "recorded_status f (database_name db_info) = Some st"
    and "st \<noteq> SUBSCRIBED"
  shows "peer_subscription_step env w db_info f =
     andthen (info (''database '' @ database_name db_info @ '' not subscribed to peers, subscribing''))
       (bnd (init_peer_spock_subscriptions w db_info True) (\<lambda>subscribed.
          if subscribed then
            andthen
              (update_database_init_status env (database_name db_info) SUBSCRIBED)
              (info (''database '' @ database_name db_info @ '' subscribed to peers''))
          else
            info (''No need to subscribe to peers for '' @ database_name db_info
                  @ '', skipping''))) f"
proof -
  obtain s where f: "f = Stored s"
    using assms(2) by (cases f) (simp_all add: recorded_status_def)
  have rd: "read_init_status env (Stored s) = (Return s, [], Stored s)"
    by (simp add: read_init_status_unforced [OF assms(1)])
  show ?thesis
    using assms(2,3) unfolding f
    by (simp add: peer_subscription_step_def bnd_Return [where m = "read_init_status env", OF rd]
          Let_def recorded_status_def run_collapse)
qed

lemma peer_subscription_step_events:
  assumes "\<not> force_update env" and "recorded_status f (database_name db_info) = Some st"
    and "st \<noteq> SUBSCRIBED"
  shows "events_of (peer_subscription_step env w db_info f) =
     Info (''database '' @ database_name db_info @ '' not subscribed to peers, subscribing'')
     # events_of (init_peer_spock_subscriptions w db_info True f)
     @ (case outcome_of (init_peer_spock_subscriptions w db_info True f) of
          Return subscribed \<Rightarrow>
            (if subscribed then
               [WriteFile f (file_of (update_database_init_status env (database_name db_info) SUBSCRIBED f)),
                Info (''database '' @ database_name db_info @ '' subscribed to peers'')]
             else
               [Info (''No need to subscribe to peers for '' @ database_name db_info @ '', skipping'')])
        | _ \<Rightarrow> [])"
proof -
  let ?P = "init_peer_spock_subscriptions w db_info True"
  have p: "?P f = (outcome_of (?P f), events_of (?P f), f)"
    by (rule quiet_result [OF quiet_init_peer_spock_subscriptions])
  note step = peer_subscription_step_pending [OF assms]
  note upd = update_database_recorded [OF assms(1,2), THEN conjunct1]
  show ?thesis
  proof (cases "outcome_of (?P f)")
    case (Return subscribed)
    with p have r: "?P f = (Return subscribed, events_of (?P f), f)" by simp
    show ?thesis
      by (cases subscribed)
         (simp_all add: step andthen_info bnd_Return [where m = ?P, OF r] Return
            andthen_Return [where m = "update_database_init_status env (database_name db_info) SUBSCRIBED",
              OF upd])
  next
    case (Exit n)
    with p have r: "?P f = (Exit n, events_of (?P f), f)" by simp
    show ?thesis
      by (simp add: step andthen_info bnd_Exit [where m = ?P, OF r] Exit)
  next
    case (Raised e)
    with p have r: "?P f = (Raised e, events_of (?P f), f)" by simp
    show ?thesis
      by (simp add: step andthen_info bnd_Raised [where m = ?P, OF r] Raised)
  next
    case Forever
    with p have r: "?P f = (Forever, events_of (?P f), f)" by simp
    show ?thesis
      by (simp add: step andthen_info bnd_Forever [where m = ?P, OF r] Forever)
  qed
qed

text \<open>
  C3, as the script has it. Take an online run without the force flag that finds an
  additional database \<open>D\<close> recorded as \<open>created\<close> (the previous run was killed before it
  recorded \<open>inited\<close>); \<open>D\<close> stands in the list of additional databases after the databases
  \<open>pre\<close>, none of which has its name, and before the databases \<open>post\<close>.

  \<^item> The run never sends the lookup of the creation phase for \<open>D\<close>; when its first loop
    comes to \<open>D\<close>, \<open>init_database\<close> only logs that it skips the database.
  \<^item> When its second loop comes to \<open>D\<close>, \<open>D\<close> is still recorded as \<open>created\<close>, and the run
    goes on with the step of \<open>D\<close>: the log line, \<open>init_spock_node\<close> for \<open>D\<close> and, when that
    returns, the write that records \<open>inited\<close>.
  \<^item> The run does not stop there for \<open>D\<close>. When its third loop comes to \<open>D\<close>, \<open>D\<close> is
    recorded as \<open>inited\<close>, and the run goes on with the peer rendezvous of \<open>D\<close>: the log line,
    \<open>init_peer_spock_subscriptions\<close> for \<open>D\<close> and, when that returns \<open>True\<close>, the write that
    records \<open>subscribed\<close>.

  A loop comes to \<open>D\<close> when everything before it has returned; a run in which an earlier
  step exits, raises or never returns ends there.
\<close>

theorem resume_from_created:
  assumes online: "mode default_db_info \<noteq> Some ''offline''"
    and nf: "\<not> force_update env"
    and created: "recorded_status f (database_name db_info) = Some CREATED"
    and first: "database_name db_info \<notin> database_name ` set pre"
  shows
    "(\<forall>c sql. ExecuteParams c sql [database_name db_info]
          \<notin> set (events_of (main env w default_db_info (pre @ db_info # post) f)))
   \<and> (outcome_of (until_creation env w default_db_info pre f) = Return () \<longrightarrow>
        (let g = file_of (until_creation env w default_db_info pre f) in
           init_database env w db_info g =
             (Return (),
              [Info (''database '' @ database_name db_info
                     @ '' already fully initialized, skipping'')],
              g)
         \<and> (\<exists>rest. events_of (main env w default_db_info (pre @ db_info # post) f) =
               events_of (until_creation env w default_db_info pre f)
               @ events_of (init_database env w db_info g) @ rest)))
   \<and> (outcome_of (until_node_init env w default_db_info (pre @ db_info # post) pre f)
        = Return () \<longrightarrow>
        (let g = file_of (until_node_init env w default_db_info (pre @ db_info # post) pre f) in
           recorded_status g (database_name db_info) = Some CREATED
         \<and> (\<exists>rest. events_of (main env w default_db_info (pre @ db_info # post) f) =
               events_of (until_node_init env w default_db_info (pre @ db_info # post) pre f)
               @ events_of (spock_node_step env w default_schemas db_info g) @ rest)
         \<and> events_of (spock_node_step env w default_schemas db_info g) =
             Info (''database '' @ database_name db_info @ '' created, initializing spock node'')
             # events_of (init_spock_node w db_info default_schemas g)
             @ (if outcome_of (init_spock_node w db_info default_schemas g) = Return ()
                then [WriteFile g
                        (file_of (update_database_init_status env (database_name db_info) INITED g)),
                      Sleep 5,
                      Info (''spock node of '' @ database_name db_info @ '' initialized.'')]
                else [])
         \<and> recorded_status
              (file_of (update_database_init_status env (database_name db_info) INITED g))
              (database_name db_info) = Some INITED))
   \<and> (outcome_of (until_rendezvous env w default_db_info (pre @ db_info # post) pre f)
        = Return () \<longrightarrow>
        (let g = file_of (until_rendezvous env w default_db_info (pre @ db_info # post) pre f) in
           recorded_status g (database_name db_info) = Some INITED
         \<and> (\<exists>rest. events_of (main env w default_db_info (pre @ db_info # post) f) =
               events_of (until_rendezvous env w default_db_info (pre @ db_info # post) pre f)
               @ events_of (peer_subscription_step env w db_info g) @ rest)
         \<and> events_of (peer_subscription_step env w db_info g) =
             Info (''database '' @ database_name db_info @ '' not subscribed to peers, subscribing'')
             # events_of (init_peer_spock_subscriptions w db_info True g)
             @ (case outcome_of (init_peer_spock_subscriptions w db_info True g) of
                  Return subscribed \<Rightarrow>
                    (if subscribed then
                       [WriteFile g
                          (file_of (update_database_init_status env (database_name db_info)
                             SUBSCRIBED g)),
                        Info (''database '' @ database_name db_info @ '' subscribed to peers'')]
                     else
                       [Info (''No need to subscribe to peers for '' @ database_name db_info
                              @ '', skipping'')])
                | _ \<Rightarrow> [])
         \<and> recorded_status
              (file_of (update_database_init_status env (database_name db_info) SUBSCRIBED g))
              (database_name db_info) = Some SUBSCRIBED))"
proof -
  let ?D = "database_name db_info"
  let ?dbs = "pre @ db_info # post"
  let ?B = "before_loops env w default_db_info"
  let ?L1 = "for_each (init_database env w) ?dbs"
  let ?N = "spock_node_step env w default_schemas"
  let ?P = "peer_subscription_step env w"
  let ?U1 = "until_creation env w default_db_info pre"
  let ?U2 = "until_node_init env w default_db_info ?dbs pre"
  let ?U3 = "until_rendezvous env w default_db_info ?dbs pre"
  have other: "database_name x \<noteq> ?D" if "x \<in> set pre" for x
  proof
    assume eq: "database_name x = ?D"
    have "?D \<in> database_name ` set pre"
      by (rule image_eqI [where f = database_name and x = x, OF eq [symmetric] that])
    with first show False by simp
  qed
  have kB: "keeps ?D CREATED ?B"
    by (rule keeps_before_loops [OF nf])
  have kL: "keeps ?D st (for_each (init_database env w) xs)" for st xs
    by (intro keeps_for_each keeps_init_database nf)
  have kN: "keeps ?D st (for_each ?N pre)" for st
    by (rule keeps_for_each) (intro keeps_spock_node_step nf disjI1 other)
  have kP: "keeps ?D st (for_each ?P pre)" for st
    by (rule keeps_for_each) (intro keeps_peer_subscription_step nf other)
  have kNpost: "keeps ?D INITED (for_each ?N post)"
    by (rule keeps_for_each) (intro keeps_spock_node_step nf disjI2, simp)
  have k1: "keeps ?D CREATED ?U1"
    unfolding until_creation_def by (intro keeps_andthen kB kL)
  have k2: "keeps ?D CREATED ?U2"
    unfolding until_node_init_def by (intro keeps_andthen kB kL kN)
  have g1: "recorded_status (file_of (?U1 f)) ?D = Some CREATED"
    using k1 created by (simp add: keeps_def)
  have g2: "recorded_status (file_of (?U2 f)) ?D = Some CREATED"
    using k2 created by (simp add: keeps_def)

  have c1: "ExecuteParams c sql [?D] \<notin> set (events_of (main env w default_db_info ?dbs f))"
    for c sql
  proof
    let ?e = "ExecuteParams c sql [?D]"
    let ?R = "andthen (for_each ?N ?dbs)
                (andthen (for_each ?P ?dbs)
                   (andthen
                      (if ?dbs = [] then raise (UnboundLocalError ''db_info'')
                       else info (''cluster node initialized ('' @ node_name (last ?dbs) @ '')''))
                      (ret ())))"
    assume "?e \<in> set (events_of (main env w default_db_info ?dbs f))"
    then have "?e \<in> set (events_of (andthen ?B (andthen ?L1 ?R) f))"
      by (simp only: main_loops [OF online])
    then consider "?e \<in> set (events_of (?B f))"
      | "?e \<in> set (events_of (?L1 (file_of (?B f))))"
      | "?e \<in> set (events_of (?R (file_of (?L1 (file_of (?B f))))))"
      by (blast dest: events_of_andthen_cases)
    then show False
    proof cases
      case 1
      then show False
        using without_lookup_before_loops [of ?D env w default_db_info]
        by (simp add: without_lookup_def)
    next
      case 2
      have "recorded_status (file_of (?B f)) ?D = Some CREATED"
        using kB created by (simp add: keeps_def)
      from creation_loop_recorded [OF nf this] 2 show False by blast
    next
      case 3
      have "without_lookup ?D ?R"
        by (intro without_lookup_andthen without_lookup_for_each without_lookup_spock_node_step
              without_lookup_peer_subscription_step without_lookup_if without_lookup_basics)
      with 3 show False by (simp add: without_lookup_def)
    qed
  qed

  have c2: "init_database env w db_info (file_of (?U1 f)) =
             (Return (),
              [Info (''database '' @ ?D @ '' already fully initialized, skipping'')],
              file_of (?U1 f))
         \<and> (\<exists>rest. events_of (main env w default_db_info ?dbs f) =
               events_of (?U1 f) @ events_of (init_database env w db_info (file_of (?U1 f))) @ rest)"
    if ret: "outcome_of (?U1 f) = Return ()"
  proof -
    obtain r where m: "main env w default_db_info ?dbs =
        andthen ?U1 (andthen (init_database env w db_info) r)"
      using main_reaches_creation [OF online] by blast
    show ?thesis
      using init_database_recorded [OF nf g1] trace_reaches [OF m ret] by blast
  qed

  have c3: "recorded_status (file_of (?U2 f)) ?D = Some CREATED
         \<and> (\<exists>rest. events_of (main env w default_db_info ?dbs f) =
               events_of (?U2 f) @ events_of (?N db_info (file_of (?U2 f))) @ rest)
         \<and> events_of (?N db_info (file_of (?U2 f))) =
             Info (''database '' @ ?D @ '' created, initializing spock node'')
             # events_of (init_spock_node w db_info default_schemas (file_of (?U2 f)))
             @ (if outcome_of (init_spock_node w db_info default_schemas (file_of (?U2 f))) = Return ()
                then [WriteFile (file_of (?U2 f))
                        (file_of (update_database_init_status env ?D INITED (file_of (?U2 f)))),
                      Sleep 5,
                      Info (''spock node of '' @ ?D @ '' initialized.'')]
                else [])
         \<and> recorded_status
              (file_of (update_database_init_status env ?D INITED (file_of (?U2 f)))) ?D
             = Some INITED"
    if ret: "outcome_of (?U2 f) = Return ()"
  proof -
    obtain r where m: "main env w default_db_info ?dbs = andthen ?U2 (andthen (?N db_info) r)"
      using main_reaches_node_init [OF online] by blast
    show ?thesis
      using g2 trace_reaches [OF m ret] spock_node_step_created_events [OF nf g2]
        update_database_recorded [OF nf g2, THEN conjunct2]
      by blast
  qed

  have c4: "recorded_status (file_of (?U3 f)) ?D = Some INITED
         \<and> (\<exists>rest. events_of (main env w default_db_info ?dbs f) =
               events_of (?U3 f) @ events_of (?P db_info (file_of (?U3 f))) @ rest)
         \<and> events_of (?P db_info (file_of (?U3 f))) =
             Info (''database '' @ ?D @ '' not subscribed to peers, subscribing'')
             # events_of (init_peer_spock_subscriptions w db_info True (file_of (?U3 f)))
             @ (case outcome_of (init_peer_spock_subscriptions w db_info True (file_of (?U3 f))) of
                  Return subscribed \<Rightarrow>
                    (if subscribed then
                       [WriteFile (file_of (?U3 f))
                          (file_of (update_database_init_status env ?D SUBSCRIBED (file_of (?U3 f)))),
                        Info (''database '' @ ?D @ '' subscribed to peers'')]
                     else
                       [Info (''No need to subscribe to peers for '' @ ?D @ '', skipping'')])
                | _ \<Rightarrow> [])
         \<and> recorded_status
              (file_of (update_database_init_status env ?D SUBSCRIBED (file_of (?U3 f)))) ?D
             = Some SUBSCRIBED"
    if ret: "outcome_of (?U3 f) = Return ()"
  proof -
    let ?T = "andthen (for_each ?N post) (for_each ?P pre)"
    have shape: "?U3 = andthen ?U2 (andthen (?N db_info) ?T)"
      by (rule until_rendezvous_reaches)
    have r2: "outcome_of (?U2 f) = Return ()"
      and rest: "outcome_of (andthen (?N db_info) ?T (file_of (?U2 f))) = Return ()"
      using andthen_outcome_Return [of ?U2 "andthen (?N db_info) ?T" f "()"] ret
      unfolding shape by simp_all
    have rN: "outcome_of (?N db_info (file_of (?U2 f))) = Return ()"
      using andthen_outcome_Return [of "?N db_info" ?T "file_of (?U2 f)" "()"] rest by simp
    let ?h = "file_of (?N db_info (file_of (?U2 f)))"
    have h: "recorded_status ?h ?D = Some INITED"
      by (rule spock_node_step_created_file [OF nf g2 rN])
    have left: "file_of (?U3 f) = file_of (?T ?h)"
      unfolding shape
      by (simp add: andthen_returns [where m = ?U2, OF r2]
            andthen_returns [where m = "?N db_info", OF rN])
    have "keeps ?D INITED ?T"
      by (intro keeps_andthen kNpost kP)
    then have g3: "recorded_status (file_of (?U3 f)) ?D = Some INITED"
      using h unfolding left by (simp add: keeps_def)
    obtain r where m: "main env w default_db_info ?dbs = andthen ?U3 (andthen (?P db_info) r)"
      using main_reaches_rendezvous [OF online] by blast
    have ns: "INITED \<noteq> SUBSCRIBED" by simp
    show ?thesis
      using g3 trace_reaches [OF m ret] peer_subscription_step_events [OF nf g3 ns]
        update_database_recorded [OF nf g3, THEN conjunct2]
      by blast
  qed

  show ?thesis
    unfolding Let_def
    using c1 c2 c3 c4 by blast
qed

theorem resume_from_created_witness:
  "mode (sample_db ''main'' [n1, n2]) \<noteq> Some ''offline''
   \<and> \<not> force_update sample_env
   \<and> recorded_status
        (Stored \<lparr>default_db_initialized = True, dbs_initialized = [''d'' \<mapsto> CREATED]\<rparr>)
        (database_name (sample_db ''d'' [n1, n2])) = Some CREATED
   \<and> database_name (sample_db ''d'' [n1, n2]) \<notin> database_name ` set [sample_db ''e'' [n1, n2]]
   \<and> outcome_of (until_creation sample_env restart_world (sample_db ''main'' [n1, n2])
        [sample_db ''e'' [n1, n2]]
        (Stored \<lparr>default_db_initialized = True, dbs_initialized = [''d'' \<mapsto> CREATED]\<rparr>))
       = Return ()
   \<and> outcome_of (until_node_init sample_env restart_world (sample_db ''main'' [n1, n2])
        ([sample_db ''e'' [n1, n2]] @ sample_db ''d'' [n1, n2] # [])
        [sample_db ''e'' [n1, n2]]
        (Stored \<lparr>default_db_initialized = True, dbs_initialized = [''d'' \<mapsto> CREATED]\<rparr>))
       = Return ()
   \<and> outcome_of (until_rendezvous sample_env restart_world (sample_db ''main'' [n1, n2])
        ([sample_db ''e'' [n1, n2]] @ sample_db ''d'' [n1, n2] # [])
        [sample_db ''e'' [n1, n2]]
        (Stored \<lparr>default_db_initialized = True, dbs_initialized = [''d'' \<mapsto> CREATED]\<rparr>))
       = Return ()
   \<and> (\<forall>c sql. ExecuteParams c sql [database_name (sample_db ''d'' [n1, n2])]
          \<notin> set (events_of (main sample_env restart_world (sample_db ''main'' [n1, n2])
                  ([sample_db ''e'' [n1, n2]] @ sample_db ''d'' [n1, n2] # [])
                  (Stored \<lparr>default_db_initialized = True, dbs_initialized = [''d'' \<mapsto> CREATED]\<rparr>))))
   \<and> recorded_status
        (file_of (until_node_init sample_env restart_world (sample_db ''main'' [n1, n2])
           ([sample_db ''e'' [n1, n2]] @ sample_db ''d'' [n1, n2] # [])
           [sample_db ''e'' [n1, n2]]
           (Stored \<lparr>default_db_initialized = True, dbs_initialized = [''d'' \<mapsto> CREATED]\<rparr>)))
        (database_name (sample_db ''d'' [n1, n2])) = Some CREATED
   \<and> recorded_status
        (file_of (until_rendezvous sample_env restart_world (sample_db ''main'' [n1, n2])
           ([sample_db ''e'' [n1, n2]] @ sample_db ''d'' [n1, n2] # [])
           [sample_db ''e'' [n1, n2]]
           (Stored \<lparr>default_db_initialized = True, dbs_initialized = [''d'' \<mapsto> CREATED]\<rparr>)))
        (database_name (sample_db ''d'' [n1, n2])) = Some INITED"
proof -
  have h1: "mode (sample_db ''main'' [n1, n2]) \<noteq> Some ''offline''"
    by code_simp
  have h2: "\<not> force_update sample_env"
    by code_simp
  have h3: "recorded_status
        (Stored \<lparr>default_db_initialized = True, dbs_initialized = [''d'' \<mapsto> CREATED]\<rparr>)
        (database_name (sample_db ''d'' [n1, n2])) = Some CREATED"
    by code_simp
  have h4: "database_name (sample_db ''d'' [n1, n2])
      \<notin> database_name ` set [sample_db ''e'' [n1, n2]]"
    by (simp add: sample_db_def)
  have r1: "outcome_of (until_creation sample_env restart_world (sample_db ''main'' [n1, n2])
        [sample_db ''e'' [n1, n2]]
        (Stored \<lparr>default_db_initialized = True, dbs_initialized = [''d'' \<mapsto> CREATED]\<rparr>))
       = Return ()"
    by code_simp
  have r2: "outcome_of (until_node_init sample_env restart_world (sample_db ''main'' [n1, n2])
        ([sample_db ''e'' [n1, n2]] @ sample_db ''d'' [n1, n2] # [])
        [sample_db ''e'' [n1, n2]]
        (Stored \<lparr>default_db_initialized = True, dbs_initialized = [''d'' \<mapsto> CREATED]\<rparr>))
       = Return ()"
    by code_simp
  have r3: "outcome_of (until_rendezvous sample_env restart_world (sample_db ''main'' [n1, n2])
        ([sample_db ''e'' [n1, n2]] @ sample_db ''d'' [n1, n2] # [])
        [sample_db ''e'' [n1, n2]]
        (Stored \<lparr>default_db_initialized = True, dbs_initialized = [''d'' \<mapsto> CREATED]\<rparr>))
       = Return ()"
    by code_simp
  show ?thesis
    using h1 h2 h3 h4 r1 r2 r3
      resume_from_created [OF h1 h2 h3 h4, where w = restart_world and post = "[]"]
    unfolding Let_def
    by blast
qed

text \<open>
  C3 as stated fails: the run that resumes a database from \<open>created\<close> does perform the
  peer rendezvous for it. Here the database has one peer; the run creates the
  subscription to that peer and leaves the database recorded as \<open>subscribed\<close>.
\<close>

theorem resumed_run_also_subscribes:
  "\<not> force_update sample_env
   \<and> recorded_status
        (Stored \<lparr>default_db_initialized = True, dbs_initialized = [''d'' \<mapsto> CREATED]\<rparr>) ''d''
       = Some CREATED
   \<and> (local_dsn (sample_db ''d'' [n1, n2]),
       spock_sub_create_sql ''sub_d_n1_n2'' ''host=h2 dbname=d user=pgedge port=5432'')
       \<in> set (executed (events_of
           (main sample_env restart_world (sample_db ''main'' [n1, n2]) [sample_db ''d'' [n1, n2]]
              (Stored \<lparr>default_db_initialized = True, dbs_initialized = [''d'' \<mapsto> CREATED]\<rparr>))))
   \<and> recorded_status
        (file_of
           (main sample_env restart_world (sample_db ''main'' [n1, n2]) [sample_db ''d'' [n1, n2]]
              (Stored \<lparr>default_db_initialized = True, dbs_initialized = [''d'' \<mapsto> CREATED]\<rparr>)))
        ''d''
       = Some SUBSCRIBED"
  by code_simp

end
